theory Spec2Isabelle
  imports Main "HOL-Library.Sublist"
begin

section \<open>The embed-content pipeline of plugins/embedbase/plugin.js\<close>

text \<open>
  The development embeds the acquisition and caching pipeline of the \<open>embedbase\<close>
  plugin: the JSONP transport (\<open>Jsonp.sendRequest\<close>), the response conversion
  (\<open>_responseToHtml\<close>), the request coordinator (\<open>loadContent\<close> and its handlers) and
  the frame-content cache (\<open>cacheFrameContents\<close>, \<open>getCachedFrameContents\<close>,
  \<open>isDetached\<close>).

  Naming: a private method \<open>_name\<close> of the widget definition is the constant \<open>name\<close>;
  the methods of the \<open>Jsonp\<close> singleton carry the prefix \<open>Jsonp_\<close>, those of the
  notification aggregator the prefix \<open>aggregator_\<close>.

  JavaScript exceptions are values of type \<open>error\<close>; objects that are shared and mutated
  (provider responses) live in an explicit store and are referred to by address.
\<close>

datatype error = TypeError | URIError

subsection \<open>Provider responses and their conversion (lines 657-670)\<close>

text \<open>
  A provider response is a JSON object. The fields read by the pipeline are optional
  strings, \<open>None\<close> standing for a property that is \<open>undefined\<close>; \<open>type\<close> is compared
  with string literals only.
\<close>

record response =
  type :: string
  url :: "string option"
  title :: "string option"
  html :: "string option"

text \<open>
  What the pipeline reads from its surroundings: \<open>CKEDITOR.env.ie\<close>;
  \<open>CKEDITOR.tools.htmlEncodeAttr\<close>, which lives in core/tools.js and is not part of the
  sources at hand, so it is a parameter; and \<open>_generateContent\<close> (lines 694-756), a
  string function of the response that is only consulted when \<open>env.ie\<close> holds and never
  writes to the response: it is a parameter as well, so every statement below holds
  whatever markup it returns. Two facts about the JavaScript engine are parameters too:
  \<open>inherited\<close> tells the names of the properties that a plain object \<open>{}\<close> inherits from
  \<open>Object.prototype\<close> (all of them functions or objects, hence truthy), and
  \<open>loneSurrogate\<close> tells the strings on which \<open>encodeURIComponent\<close> raises
  \<open>URIError\<close>: those holding a lone UTF-16 surrogate, which the 8-bit strings used here
  cannot express.
\<close>

record env =
  ie :: bool
  htmlEncodeAttr :: "string option \<Rightarrow> string"
  generateContent :: "response \<Rightarrow> string option"
  inherited :: "string \<Rightarrow> bool"
  loneSurrogate :: "string \<Rightarrow> bool"

text \<open>
  \<open>s.replace( /<iframe/g, '<iframe tabindex="-1"' )\<close>: a left-to-right scan that
  replaces each match of the literal and resumes behind it.
\<close>

fun replace_iframe :: "string \<Rightarrow> string" where
  "replace_iframe [] = []"
| "replace_iframe (c # cs) =
     (if prefix ''<iframe'' (c # cs)
      then ''<iframe tabindex=\"-1\"'' @ replace_iframe (drop 7 (c # cs))
      else c # replace_iframe cs)"

text \<open>
  \<open>_responseToHtml( url, response )\<close>. The result is the returned value (\<open>None\<close> for
  \<open>null\<close>) together with the response object as the call leaves it: line 664 assigns
  to \<open>response.html\<close>. \<open>response.html.replace\<close> on a missing \<open>html\<close> raises.
\<close>

definition responseToHtml :: "env \<Rightarrow> string \<Rightarrow> response \<Rightarrow> error + (string option \<times> response)" where
  "responseToHtml e u r =
     (if type r = ''photo'' then
        Inr (Some (''<img src=\"'' @ htmlEncodeAttr e (url r) @ ''\" '' @
                   ''alt=\"'' @ htmlEncodeAttr e (Some (case title r of None \<Rightarrow> '''' | Some t \<Rightarrow> t)) @
                   ''\" style=\"max-width:100%;height:auto\" />''), r)
      else if type r = ''video'' \<or> type r = ''rich'' then
        (case html r of
           None \<Rightarrow> Inl TypeError
         | Some h \<Rightarrow> Inr (Some (replace_iframe h), r\<lparr>html := Some (replace_iframe h)\<rparr>))
      else Inr (None, r))"

text \<open>
  Modelled from the spec: \<open>CKEDITOR.tools.htmlEncodeAttr\<close> (core/tools.js) is missing
  from the sources. The claims call it HTML-attribute encoding: the markup characters
  and the attribute delimiter become entities; an undefined argument gives the empty
  string. It instantiates the parameter \<open>htmlEncodeAttr\<close> in concrete evaluations.
\<close>

fun encodeChar :: "char \<Rightarrow> string" where
  "encodeChar c =
     (if c = CHR ''&'' then ''&amp;''
      else if c = CHR ''>'' then ''&gt;''
      else if c = CHR ''<'' then ''&lt;''
      else if c = CHR 0x22 then ''&quot;''
      else [c])"

fun tools_htmlEncodeAttr :: "string option \<Rightarrow> string" where
  "tools_htmlEncodeAttr None = []"
| "tools_htmlEncodeAttr (Some s) = concat (map encodeChar s)"

text \<open>
  The properties of \<open>Object.prototype\<close> (ECMA-262, 20.1.3 and B.2.2), and an engine
  that has them and meets well-formed URLs only.
\<close>

definition objectPrototype :: "string list" where
  "objectPrototype =
     [''constructor'', ''hasOwnProperty'', ''isPrototypeOf'', ''propertyIsEnumerable'',
      ''toLocaleString'', ''toString'', ''valueOf'', ''__proto__'', ''__defineGetter__'',
      ''__defineSetter__'', ''__lookupGetter__'', ''__lookupSetter__'']"

definition browser :: env where
  "browser = \<lparr>ie = False, htmlEncodeAttr = tools_htmlEncodeAttr, generateContent = (\<lambda>r. None),
               inherited = (\<lambda>k. k \<in> set objectPrototype), loneSurrogate = (\<lambda>u. False)\<rparr>"

text \<open>The value of an attribute in generated markup: the text up to the closing quote.\<close>

definition attrValue :: "string \<Rightarrow> string" where
  "attrValue s = takeWhile (\<lambda>c. c \<noteq> CHR 0x22) s"

subsection \<open>Transport: the Jsonp singleton (lines 16-80)\<close>

text \<open>
  One activation of \<open>Jsonp.sendRequest\<close> is identified by its \<open>callbackKey\<close>, the
  number drawn from \<open>CKEDITOR.tools.getNextNumber()\<close> (core/tools.js, a counter). The
  state of the transport is:
  \<^item> \<open>nextNumber\<close>, the counter;
  \<^item> \<open>jsonpCallbacks\<close>, the keys registered in \<open>CKEDITOR._.jsonpCallbacks\<close>;
  \<^item> \<open>body\<close>, the script elements attached to the document body, each named by the key
    of the activation that created it;
  \<^item> \<open>scriptElement\<close>, the local variable of that name in each activation: the element,
    or \<open>None\<close> once it is \<open>null\<close>;
  \<^item> \<open>onerror\<close>, the \<open>error\<close> listener of each script element, with whether an
    \<open>errorCallback\<close> was passed to \<open>sendRequest\<close>;
  \<^item> \<open>timeouts\<close>, the closures handed to \<open>setTimeout\<close> on line 57 and not yet run, in
    order, each with its key and the response it will deliver.
  The provider URL produced by the template only names the remote resource and is not
  represented. The callbacks passed to \<open>sendRequest\<close> belong to the caller: an
  invocation is reported as a \<open>call\<close> and interpreted by the coordinator below.
\<close>

record 'r jsonp =
  nextNumber :: nat
  jsonpCallbacks :: "nat set"
  body :: "nat list"
  scriptElement :: "nat \<rightharpoonup> nat"
  onerror :: "nat \<rightharpoonup> bool"
  timeouts :: "(nat \<times> 'r) list"

datatype 'r call = Callback nat 'r | ErrorCallback nat

text \<open>\<open>cleanUp\<close> of the activation with key \<open>k\<close> (lines 70-76).\<close>

definition Jsonp_cleanUp :: "nat \<Rightarrow> 'r jsonp \<Rightarrow> 'r jsonp" where
  "Jsonp_cleanUp k j =
     (case scriptElement j k of
        Some el \<Rightarrow> j\<lparr>body := removeAll el (body j),
                      jsonpCallbacks := jsonpCallbacks j - {k},
                      scriptElement := (scriptElement j)(k := None)\<rparr>
      | None \<Rightarrow> j)"

text \<open>
  \<open>sendRequest\<close> (lines 44-79): draws the key, registers the callback, attaches the
  script with its error listener and returns the request, whose \<open>cancel\<close> is \<open>cleanUp\<close>
  of this activation; the returned key stands for that request object.
\<close>

definition Jsonp_sendRequest :: "bool \<Rightarrow> 'r jsonp \<Rightarrow> nat \<times> 'r jsonp" where
  "Jsonp_sendRequest hasErrorCallback j =
     (let callbackKey = nextNumber j
      in (callbackKey,
          j\<lparr>nextNumber := Suc callbackKey,
            jsonpCallbacks := insert callbackKey (jsonpCallbacks j),
            body := body j @ [callbackKey],
            scriptElement := (scriptElement j)(callbackKey \<mapsto> callbackKey),
            onerror := (onerror j)(callbackKey \<mapsto> hasErrorCallback)\<rparr>))"

text \<open>The function stored under \<open>CKEDITOR._.jsonpCallbacks[ k ]\<close> (lines 53-61).\<close>

definition Jsonp_callback :: "nat \<Rightarrow> 'r \<Rightarrow> 'r jsonp \<Rightarrow> 'r jsonp" where
  "Jsonp_callback k response j = j\<lparr>timeouts := timeouts j @ [(k, response)]\<rparr>"

text \<open>The closure given to \<open>setTimeout\<close> (lines 57-60): \<open>cleanUp(); callback( response )\<close>.\<close>

definition Jsonp_timeout :: "nat \<Rightarrow> 'r \<Rightarrow> 'r jsonp \<Rightarrow> 'r call list \<times> 'r jsonp" where
  "Jsonp_timeout k response j = ([Callback k response], Jsonp_cleanUp k j)"

text \<open>The error listener (lines 63-66): \<open>cleanUp(); errorCallback && errorCallback()\<close>.\<close>

definition Jsonp_onerror :: "nat \<Rightarrow> bool \<Rightarrow> 'r jsonp \<Rightarrow> 'r call list \<times> 'r jsonp" where
  "Jsonp_onerror k hasErrorCallback j =
     ((if hasErrorCallback then [ErrorCallback k] else []), Jsonp_cleanUp k j)"

text \<open>
  What can happen to the transport after requests were sent: the provider's script runs
  and calls \<open>CKEDITOR._.jsonpCallbacks[ k ]( response )\<close> (a key that is no longer
  registered makes that script fail on its own, without any effect here); the script
  element of \<open>k\<close> signals \<open>error\<close>; the oldest pending timeout runs; the holder of
  request \<open>k\<close> calls \<open>cancel()\<close>. A step returns the caller's callbacks it invoked.
\<close>

datatype 'r jsonp_event =
    ScriptRuns nat 'r
  | ScriptError nat
  | TimeoutFires
  | Cancel nat

fun Jsonp_step :: "'r jsonp_event \<Rightarrow> 'r jsonp \<Rightarrow> 'r call list \<times> 'r jsonp" where
  "Jsonp_step (ScriptRuns k response) j =
     (if k \<in> jsonpCallbacks j then ([], Jsonp_callback k response j) else ([], j))"
| "Jsonp_step (ScriptError k) j =
     (case onerror j k of Some h \<Rightarrow> Jsonp_onerror k h j | None \<Rightarrow> ([], j))"
| "Jsonp_step TimeoutFires j =
     (case timeouts j of
        [] \<Rightarrow> ([], j)
      | (k, response) # rest \<Rightarrow> Jsonp_timeout k response (j\<lparr>timeouts := rest\<rparr>))"
| "Jsonp_step (Cancel k) j = ([], Jsonp_cleanUp k j)"

text \<open>
  A history of the transport: the events in order, each followed by the callbacks it
  invoked.
\<close>

datatype 'r observed = Happened "'r jsonp_event" | Invoked "'r call"

fun Jsonp_run :: "'r jsonp_event list \<Rightarrow> 'r jsonp \<Rightarrow> 'r observed list \<times> 'r jsonp" where
  "Jsonp_run [] j = ([], j)"
| "Jsonp_run (ev # evs) j =
     (let (calls, j') = Jsonp_step ev j;
          (obs, j'') = Jsonp_run evs j'
      in (Happened ev # map Invoked calls @ obs, j''))"

definition Jsonp_init :: "'r jsonp" where
  "Jsonp_init = \<lparr>nextNumber = 0, jsonpCallbacks = {}, body = [], scriptElement = Map.empty,
                 onerror = Map.empty, timeouts = []\<rparr>"

subsection \<open>Progress aggregation (lines 764-774)\<close>

text \<open>
  Modelled from the spec: \<open>CKEDITOR.plugins.notificationAggregator\<close> and its tasks
  (plugins/notificationaggregator) are missing from the sources. The spec describes a
  unit that groups outstanding tasks, shows one message while at least one task is
  outstanding and is finished when the last grouped task is resolved or canceled. An
  aggregator is the list of its tasks' states; resolving a task that is no longer
  outstanding changes nothing; the result of resolving says whether the aggregator
  thereby reached its finished state (the \<open>finished\<close> event).
\<close>

datatype task_state = Pending | Done | Canceled

type_synonym aggregator = "task_state list"

definition aggregator_isFinished :: "aggregator \<Rightarrow> bool" where
  "aggregator_isFinished a = (Pending \<notin> set a)"

definition aggregator_createTask :: "aggregator \<Rightarrow> nat \<times> aggregator" where
  "aggregator_createTask a = (length a, a @ [Pending])"

definition aggregator_resolve :: "task_state \<Rightarrow> nat \<Rightarrow> aggregator \<Rightarrow> bool \<times> aggregator" where
  "aggregator_resolve s i a =
     (if i < length a \<and> a ! i = Pending
      then (aggregator_isFinished (a[i := s]), a[i := s])
      else (False, a))"

subsection \<open>The request coordinator (lines 430-489, 565-648, 680-683, 764-796)\<close>

text \<open>
  \<open>opts\<close> records which of the caller's callbacks were supplied, and the
  \<open>noNotifications\<close> flag. The caller's callbacks are opaque: an invocation is an entry
  in the log of effects.

  A request object is written only by the code that creates it (\<open>task\<close> and \<open>cancel\<close>,
  before \<open>loadContent\<close> returns) and by its own \<open>finishLoading\<close> (\<open>response\<close>), so it is
  carried by value in the closures that hold it. Beside the fields of the source it
  keeps what its closures captured: the caller's \<open>opts\<close>, the widget \<open>that\<close>, and the key
  whose \<open>cleanUp\<close> its \<open>cancel\<close> runs. A task is named by its aggregator and its index.

  The value that \<open>finishLoading\<close> receives, and that is read from and written to
  \<open>_cache\<close>, is a reference: to a response object in the heap, or to the value of a
  property that \<open>_cache\<close> inherits from \<open>Object.prototype\<close> (a built-in function, or the
  prototype itself), an object that has none of the properties \<open>type\<close>, \<open>url\<close>,
  \<open>title\<close>, \<open>html\<close>.
\<close>

type_synonym addr = nat

datatype reference = Response addr | Prototype string

record opts =
  callback :: bool
  errorCallback :: bool
  noNotifications :: bool

record request =
  r_noNotifications :: bool
  r_url :: string
  r_task :: "(nat \<times> nat) option"
  r_response :: "reference option"
  r_cancel :: "nat option"
  r_opts :: opts
  r_that :: nat

datatype effect =
    Warn string
  | OptsCallback string
  | OptsErrorCallback string string
  | ShowNotification string string
  | SetContent nat string string
  | RestoreHtml nat
  | AddContent nat "string option"
  | RequestCanceled string
  | TaskDone "nat \<times> nat"
  | TaskCancel "nat \<times> nat"
  | AggregatorCreated nat
  | AggregatorFinished nat
  | Uncaught error

text \<open>
  The state shared by the widgets of one definition in one editor:
  \<^item> \<open>instances\<close>: the ids present in \<open>editor.widgets.instances\<close>;
  \<^item> \<open>cache\<close>: the own properties of the \<open>_cache\<close> object, from resource URL to the
    value stored;
  \<^item> \<open>heap\<close>, \<open>nextAddr\<close>: the response objects; an address outside the heap reads as
    \<open>undefined\<close>;
  \<^item> \<open>aggregators\<close>, \<open>aggregator\<close>: the aggregator objects created so far and the
    variable \<open>aggregator\<close> of \<open>createWidgetBaseDefinition\<close>;
  \<^item> \<open>jsonp\<close>: the transport, delivering addresses of responses;
  \<^item> \<open>sent\<close>: for each callback key, the request whose callbacks line 567 passed to
    \<open>Jsonp.sendRequest\<close>;
  \<^item> \<open>timers\<close>: the closures handed to \<open>setTimeout\<close> on line 450 and not yet run;
  \<^item> \<open>log\<close>: the effects on the caller, the user and the widget's element, in order.
  Only the default listeners of \<open>sendRequest\<close> and \<open>handleResponse\<close> are present, and
  \<open>providerUrl\<close> is defined.
\<close>

record state =
  instances :: "nat set"
  cache :: "string \<rightharpoonup> reference"
  heap :: "addr \<rightharpoonup> response"
  nextAddr :: addr
  aggregators :: "aggregator list"
  aggregator :: "nat option"
  jsonp :: "addr jsonp"
  sent :: "nat \<rightharpoonup> request"
  timers :: "(request \<times> reference) list"
  log :: "effect list"

definition effect :: "effect \<Rightarrow> state \<Rightarrow> state" where
  "effect x st = st\<lparr>log := log st @ [x]\<rparr>"

text \<open>\<open>task.done()\<close> and \<open>task.cancel()\<close> on the task \<open>( g, i )\<close>.\<close>

definition task_resolve :: "task_state \<Rightarrow> nat \<times> nat \<Rightarrow> state \<Rightarrow> state" where
  "task_resolve s t st =
     (case t of (g, i) \<Rightarrow>
        if g < length (aggregators st) then
          (let (fin, a) = aggregator_resolve s i (aggregators st ! g)
           in st\<lparr>aggregators := (aggregators st)[g := a],
                log := log st @ (if fin then [AggregatorFinished g] else [])\<rparr>)
        else st)"

definition task_done :: "nat \<times> nat \<Rightarrow> state \<Rightarrow> state" where
  "task_done t st = task_resolve Done t (effect (TaskDone t) st)"

definition task_cancel :: "nat \<times> nat \<Rightarrow> state \<Rightarrow> state" where
  "task_cancel t st = task_resolve Canceled t (effect (TaskCancel t) st)"

text \<open>\<open>_createTask\<close> (lines 764-774).\<close>

definition createTask :: "state \<Rightarrow> (nat \<times> nat) \<times> state" where
  "createTask st =
     (let (g, st1) =
            (case aggregator st of
               Some g \<Rightarrow>
                 if g < length (aggregators st) \<and> \<not> aggregator_isFinished (aggregators st ! g)
                 then (g, st)
                 else (length (aggregators st),
                       effect (AggregatorCreated (length (aggregators st)))
                         (st\<lparr>aggregators := aggregators st @ [ [] ],
                             aggregator := Some (length (aggregators st))\<rparr>))
             | None \<Rightarrow>
                 (length (aggregators st),
                  effect (AggregatorCreated (length (aggregators st)))
                    (st\<lparr>aggregators := aggregators st @ [ [] ],
                        aggregator := Some (length (aggregators st))\<rparr>)));
          (i, a) = aggregator_createTask (aggregators st1 ! g)
      in ((g, i), st1\<lparr>aggregators := (aggregators st1)[g := a]\<rparr>))"

text \<open>
  \<open>_cacheResponse\<close> and \<open>_getCachedResponse\<close> (lines 783-796). \<open>_cache\<close> is the plain
  object \<open>{}\<close> of line 150, so \<open>this._cache[ url ]\<close> gives the own property when there
  is one, and otherwise the property of that name inherited from \<open>Object.prototype\<close>,
  if any. The assignment of line 784 is reached only for a URL that is an own property
  already or whose lookup gave nothing before the request was sent, so it always
  writes an own property. \<open>_setContent\<close> (680-683).
\<close>

definition cacheResponse :: "string \<Rightarrow> reference \<Rightarrow> state \<Rightarrow> state" where
  "cacheResponse u response st = st\<lparr>cache := (cache st)(u \<mapsto> response)\<rparr>"

definition getCachedResponse :: "env \<Rightarrow> state \<Rightarrow> string \<Rightarrow> reference option" where
  "getCachedResponse e st u =
     (case cache st u of
        Some response \<Rightarrow> Some response
      | None \<Rightarrow> if inherited e u then Some (Prototype u) else None)"

definition setContent :: "nat \<Rightarrow> string \<Rightarrow> string \<Rightarrow> state \<Rightarrow> state" where
  "setContent that u content st = effect (SetContent that u content) st"

text \<open>
  \<open>addContent\<close> (lines 298-351) fills the widget's frame once the frame is ready; here
  it is the effect of having been called with the given content.
\<close>

definition addContent :: "nat \<Rightarrow> string option \<Rightarrow> state \<Rightarrow> state" where
  "addContent that content st = effect (AddContent that content) st"

text \<open>\<open>_handleError\<close> (lines 640-648) and the request's \<open>errorCallback\<close> (439-444).\<close>

definition handleError :: "request \<Rightarrow> string \<Rightarrow> state \<Rightarrow> state" where
  "handleError request msg st =
     (case r_task request of
        Some t \<Rightarrow>
          (let st1 = task_cancel t st
           in if \<not> r_noNotifications request
              then effect (ShowNotification msg (r_url request)) st1
              else st1)
      | None \<Rightarrow> st)"

definition request_errorCallback :: "request \<Rightarrow> string \<Rightarrow> state \<Rightarrow> state" where
  "request_errorCallback request msg st =
     (let st1 = handleError request msg st
      in if errorCallback (r_opts request)
         then effect (OptsErrorCallback (r_url request) msg) st1
         else st1)"

text \<open>
  \<open>_handleResponse\<close> (lines 597-630) with the default \<open>handleResponse\<close> listener
  (204-217) inlined at the \<open>fire\<close>: \<open>evtData.html\<close> starts empty, so the listener calls
  \<open>_responseToHtml\<close> on the response object, which is written back to the heap. An
  exception leaves with the state reached so far. Reading \<open>type\<close> of \<open>undefined\<close> (no
  response, or an address outside the heap) raises; an inherited value has no \<open>type\<close>,
  which equals none of the three literals, so \<open>_responseToHtml\<close> returns \<open>null\<close> for it.
\<close>

definition handleResponse :: "env \<Rightarrow> request \<Rightarrow> state \<Rightarrow> (error \<times> state) + (bool \<times> state)" where
  "handleResponse e request st =
     (case r_response request of
        None \<Rightarrow> Inl (TypeError, st)
      | Some (Prototype k) \<Rightarrow>
          Inr (False, request_errorCallback request ''unsupportedUrl'' st)
      | Some (Response a) \<Rightarrow>
          (case heap st a of
             None \<Rightarrow> Inl (TypeError, st)
           | Some response \<Rightarrow>
          (case responseToHtml e (r_url request) response of
             Inl x \<Rightarrow> Inl (x, st)
           | Inr (retHtml, response') \<Rightarrow>
               (let st1 = st\<lparr>heap := (heap st)(a \<mapsto> response')\<rparr>
                in case retHtml of
                     Some evtData_html \<Rightarrow>
                       (let st2 = (case r_task request of Some t \<Rightarrow> task_done t st1 | None \<Rightarrow> st1);
                            content = (if ie e then generateContent e response' else None);
                            st3 = (if content \<noteq> None \<and> content \<noteq> Some [] then effect (RestoreHtml (r_that request)) st2 else st2);
                            content' = (case content of
                                          None \<Rightarrow> evtData_html
                                        | Some c \<Rightarrow> if c = [] then evtData_html else c)
                        in Inr (True, setContent (r_that request) (r_url request) content' st3))
                   | None \<Rightarrow>
                       Inr (False, request_errorCallback request ''unsupportedUrl'' st1)))))"

text \<open>\<open>finishLoading\<close> (lines 463-486), the \<open>callback\<close> of the request.\<close>

definition finishLoading :: "env \<Rightarrow> request \<Rightarrow> reference \<Rightarrow> state \<Rightarrow> (error \<times> state) + state" where
  "finishLoading e request0 a st =
     (let request = request0\<lparr>r_response := Some a\<rparr>
      in if r_that request \<notin> instances st then
           (let st1 = effect (Warn ''embedbase-widget-invalid'') st
            in Inr (case r_task request of Some t \<Rightarrow> task_done t st1 | None \<Rightarrow> st1))
         else
           (case handleResponse e request st of
              Inl x \<Rightarrow> Inl x
            | Inr (handled, st1) \<Rightarrow>
                if handled then
                  (let st2 = cacheResponse (r_url request) a st1;
                       st3 = (if callback (r_opts request) then effect (OptsCallback (r_url request)) st2 else st2);
                       st4 = (if \<not> ie e
                              then addContent (r_that request)
                                     (case a of
                                        Prototype k \<Rightarrow> None
                                      | Response b \<Rightarrow>
                                          (case heap st3 b of None \<Rightarrow> None | Some response \<Rightarrow> html response))
                                     st3
                              else st3)
                   in Inr st4)
                else Inr st1))"

text \<open>
  \<open>_sendRequest\<close> (lines 565-582), reached through the \<open>sendRequest\<close> event, and the
  \<open>cancel\<close> it installs on the request. The argument
  \<open>encodeURIComponent( request.url )\<close> of line 570 is evaluated before
  \<open>Jsonp.sendRequest\<close> is entered and may raise.
\<close>

definition sendRequest :: "env \<Rightarrow> request \<Rightarrow> state \<Rightarrow> (error \<times> state) + (request \<times> state)" where
  "sendRequest e request st =
     (if loneSurrogate e (r_url request) then Inl (URIError, st)
      else
        (let (k, j) = Jsonp_sendRequest True (jsonp st);
             request' = request\<lparr>r_cancel := Some k\<rparr>
         in Inr (request', st\<lparr>jsonp := j, sent := (sent st)(k \<mapsto> request')\<rparr>)))"

definition request_cancel :: "request \<Rightarrow> state \<Rightarrow> (error \<times> state) + state" where
  "request_cancel request st =
     (case r_cancel request of
        None \<Rightarrow> Inl (TypeError, st)
      | Some k \<Rightarrow> Inr (effect (RequestCanceled (r_url request)) (st\<lparr>jsonp := Jsonp_cleanUp k (jsonp st)\<rparr>)))"

text \<open>
  \<open>loadContent\<close> (lines 430-489) of the widget \<open>that\<close>. The result is the returned
  request, \<open>None\<close> for \<open>undefined\<close>, or the exception that leaves the call.
\<close>

definition loadContent :: "env \<Rightarrow> nat \<Rightarrow> string \<Rightarrow> opts \<Rightarrow> state \<Rightarrow> (error \<times> state) + (request option \<times> state)" where
  "loadContent e that u opts st =
     (let cachedResponse = getCachedResponse e st u;
          request = \<lparr>r_noNotifications = noNotifications opts, r_url = u, r_task = None,
                     r_response = None, r_cancel = None, r_opts = opts, r_that = that\<rparr>
      in case cachedResponse of
           Some a \<Rightarrow> Inr (None, st\<lparr>timers := timers st @ [(request, a)]\<rparr>)
         | None \<Rightarrow>
             (let (request1, st1) =
                    (if \<not> noNotifications opts
                     then (let (t, s) = createTask st in (request\<lparr>r_task := Some t\<rparr>, s))
                     else (request, st))
              in case sendRequest e request1 st1 of
                   Inl x \<Rightarrow> Inl x
                 | Inr (request2, st2) \<Rightarrow> Inr (Some request2, st2)))"

text \<open>
  One turn of the event loop: a caller loads content; the provider's script for a key
  runs with a fresh response object; a script element signals an error; the oldest
  timeout of the transport, or of \<open>loadContent\<close>, runs; the holder of a request calls
  its \<open>cancel()\<close>; a widget is destroyed. An exception that leaves a turn is reported
  and the state stays as the turn left it.
\<close>

datatype event =
    Load nat string opts
  | ProviderScript nat response
  | ProviderError nat
  | TransportTimeout
  | CacheTimeout
  | Abort request
  | Destroy nat

definition uncaught :: "(error \<times> state) + state \<Rightarrow> state" where
  "uncaught r = (case r of Inl (x, st) \<Rightarrow> effect (Uncaught x) st | Inr st \<Rightarrow> st)"

fun perform :: "env \<Rightarrow> state \<Rightarrow> addr call \<Rightarrow> state" where
  "perform e st (Callback k a) =
     (case sent st k of
        Some request \<Rightarrow> uncaught (finishLoading e request (Response a) st)
      | None \<Rightarrow> st)"
| "perform e st (ErrorCallback k) =
     (case sent st k of Some request \<Rightarrow> request_errorCallback request ''fetchingFailed'' st | None \<Rightarrow> st)"

definition transport :: "env \<Rightarrow> addr jsonp_event \<Rightarrow> state \<Rightarrow> state" where
  "transport e ev st =
     (let (calls, j) = Jsonp_step ev (jsonp st)
      in foldl (perform e) (st\<lparr>jsonp := j\<rparr>) calls)"

fun step :: "env \<Rightarrow> state \<Rightarrow> event \<Rightarrow> state" where
  "step e st (Load that u opts) =
     (case loadContent e that u opts st of
        Inl (x, st') \<Rightarrow> effect (Uncaught x) st'
      | Inr (request, st') \<Rightarrow> st')"
| "step e st (ProviderScript k response) =
     transport e (ScriptRuns k (nextAddr st))
       (st\<lparr>heap := (heap st)(nextAddr st \<mapsto> response), nextAddr := Suc (nextAddr st)\<rparr>)"
| "step e st (ProviderError k) = transport e (ScriptError k) st"
| "step e st TransportTimeout = transport e TimeoutFires st"
| "step e st CacheTimeout =
     (case timers st of
        [] \<Rightarrow> st
      | (request, a) # rest \<Rightarrow> uncaught (finishLoading e request a (st\<lparr>timers := rest\<rparr>)))"
| "step e st (Abort request) = uncaught (request_cancel request st)"
| "step e st (Destroy that) = st\<lparr>instances := instances st - {that}\<rparr>"

definition run :: "env \<Rightarrow> event list \<Rightarrow> state \<Rightarrow> state" where
  "run e evs st = foldl (step e) st evs"

definition init :: "nat set \<Rightarrow> state" where
  "init ws = \<lparr>instances = ws, cache = Map.empty, heap = Map.empty, nextAddr = 0,
              aggregators = [], aggregator = None, jsonp = Jsonp_init, sent = Map.empty,
              timers = [], log = []\<rparr>"

text \<open>
  A batch of \<open>loadContent\<close> calls issued in one turn, each by some widget for some URL
  with some options, returning the requests in order, or stopping at the first call
  that raises; and a series of resolutions of tasks, each by \<open>done()\<close> (\<open>True\<close>) or
  \<open>cancel()\<close> (\<open>False\<close>).
\<close>

definition notifying :: opts where
  "notifying = \<lparr>callback = True, errorCallback = True, noNotifications = False\<rparr>"

fun loadAll :: "env \<Rightarrow> (nat \<times> string \<times> opts) list \<Rightarrow> state \<Rightarrow> (error \<times> state) + (request option list \<times> state)" where
  "loadAll e [] st = Inr ([], st)"
| "loadAll e ((that, u, opts) # calls) st =
     (case loadContent e that u opts st of
        Inl x \<Rightarrow> Inl x
      | Inr (r, st1) \<Rightarrow>
          (case loadAll e calls st1 of
             Inl x \<Rightarrow> Inl x
           | Inr (rs, st2) \<Rightarrow> Inr (r # rs, st2)))"

fun resolveAll :: "((nat \<times> nat) \<times> bool) list \<Rightarrow> state \<Rightarrow> state" where
  "resolveAll [] st = st"
| "resolveAll ((t, d) # ts) st = resolveAll ts (if d then task_done t st else task_cancel t st)"

text \<open>
  No aggregator exists, or the existing one is finished; the task a returned request
  carries; and a call that asks for notifications, whose lookup in the cache gives
  nothing and whose URL \<open>encodeURIComponent\<close> accepts.
\<close>

definition fresh_aggregator :: "state \<Rightarrow> bool" where
  "fresh_aggregator st =
     (case aggregator st of
        None \<Rightarrow> True
      | Some g \<Rightarrow> g < length (aggregators st) \<and> aggregator_isFinished (aggregators st ! g))"

definition taskOf :: "request option \<Rightarrow> (nat \<times> nat) option" where
  "taskOf r = (case r of None \<Rightarrow> None | Some request \<Rightarrow> r_task request)"

definition dispatched :: "env \<Rightarrow> state \<Rightarrow> nat \<times> string \<times> opts \<Rightarrow> bool" where
  "dispatched e st c =
     (case c of (that, u, opts) \<Rightarrow>
        \<not> noNotifications opts \<and> getCachedResponse e st u = None \<and> \<not> loneSurrogate e u)"

subsection \<open>The frame-content cache (lines 932-961, 997-1006)\<close>

text \<open>
  The JavaScript values that the variable \<open>window\<close> of \<open>isDetached\<close> and its property
  \<open>$\<close> can hold. A \<open>dom_window\<close> is a \<open>CKEDITOR.dom.window\<close> wrapper: \<open>dollar\<close> is the
  native window it wraps (\<open>None\<close> for \<open>null\<close>, the document has no window any more),
  \<open>frameInDocument\<close> is what \<open>el.getDocument().getDocumentElement().contains( el )\<close>
  gives for its frame element \<open>el\<close>. These come from core/dom, which is not part of the
  sources: the \<open>dom\<close> parameter gives, for each captured element, the wrapper that
  \<open>element.getDocument().getWindow()\<close> returns at the time of the call.
\<close>

record dom_window =
  dollar :: "nat option"
  frameInDocument :: bool

datatype jsvalue = Undefined | Null | Boolean bool | Native nat | Object dom_window

type_synonym dom = "nat \<Rightarrow> dom_window"

fun truthy :: "jsvalue \<Rightarrow> bool" where
  "truthy Undefined = False"
| "truthy Null = False"
| "truthy (Boolean b) = b"
| "truthy (Native n) = True"
| "truthy (Object w) = True"

text \<open>The operator \<open>!\<close> and the property read \<open>v.$\<close>.\<close>

definition js_not :: "jsvalue \<Rightarrow> jsvalue" where
  "js_not v = Boolean (\<not> truthy v)"

fun prop_dollar :: "jsvalue \<Rightarrow> error + jsvalue" where
  "prop_dollar Undefined = Inl TypeError"
| "prop_dollar Null = Inl TypeError"
| "prop_dollar (Boolean b) = Inr Undefined"
| "prop_dollar (Native n) = Inr Undefined"
| "prop_dollar (Object w) = Inr (case dollar w of None \<Rightarrow> Null | Some n \<Rightarrow> Native n)"

text \<open>
  \<open>isDetached\<close> (lines 997-1006). Line 998 reads
  \<open>var window = !element.getDocument().getWindow();\<close>. Calling \<open>getFrame\<close> on anything
  but a window wrapper raises.
\<close>

definition isDetached :: "dom \<Rightarrow> nat \<Rightarrow> error + bool" where
  "isDetached d element =
     (let window = js_not (Object (d element))
      in case prop_dollar window of
           Inl x \<Rightarrow> Inl x
         | Inr v \<Rightarrow>
             if \<not> truthy v then Inr True
             else (case window of
                     Object w \<Rightarrow> Inr (frameInDocument w)
                   | _ \<Rightarrow> Inl TypeError))"

text \<open>
  \<open>CKEDITOR.tools.array.find\<close> and \<open>indexOf\<close> (core/tools.js): the first element the
  callback accepts, and the first index holding the element or \<open>-1\<close>;
  \<open>Array.prototype.splice( index, 1 )\<close>, where a negative index counts from the end.
\<close>

fun array_find :: "('a \<Rightarrow> error + bool) \<Rightarrow> 'a list \<Rightarrow> error + 'a option" where
  "array_find fn [] = Inr None"
| "array_find fn (x # xs) =
     (case fn x of
        Inl err \<Rightarrow> Inl err
      | Inr b \<Rightarrow> if b then Inr (Some x) else array_find fn xs)"

fun array_indexOf :: "'a list \<Rightarrow> 'a \<Rightarrow> int" where
  "array_indexOf [] x = - 1"
| "array_indexOf (y # ys) x =
     (if y = x then 0
      else (let i = array_indexOf ys x in if i < 0 then - 1 else i + 1))"

definition splice1 :: "int \<Rightarrow> 'a list \<Rightarrow> 'a list" where
  "splice1 index xs =
     (let len = int (length xs);
          start = (if index < 0 then max (len + index) 0 else min index len)
      in take (nat start) xs @ drop (Suc (nat start)) xs)"

text \<open>
  \<open>editor._.cachedFrameContents\<close> maps a resource URL to the array of captured
  elements (the local variable \<open>cache\<close> of the source, here \<open>arr\<close>); an element is
  named by a number.
\<close>

type_synonym frame_cache = "string \<rightharpoonup> nat list"

definition cacheFrameContents :: "frame_cache \<Rightarrow> string \<Rightarrow> nat \<Rightarrow> frame_cache" where
  "cacheFrameContents editor u element =
     editor(u \<mapsto> (case editor u of None \<Rightarrow> [] | Some arr \<Rightarrow> arr) @ [element])"

definition getCachedFrameContents :: "dom \<Rightarrow> frame_cache \<Rightarrow> string \<Rightarrow> error + (nat option \<times> frame_cache)" where
  "getCachedFrameContents d editor u =
     (case editor u of
        None \<Rightarrow> Inr (None, editor)
      | Some arr \<Rightarrow>
          (case array_find (isDetached d) arr of
             Inl err \<Rightarrow> Inl err
           | Inr None \<Rightarrow> Inr (None, editor)
           | Inr (Some contents) \<Rightarrow>
               (let index = array_indexOf arr contents
                in Inr (Some contents, editor(u \<mapsto> splice1 index arr)))))"

text \<open>
  A frame that is still attached: its document has a window and the frame element is
  in its document.
\<close>

definition attached :: dom_window where
  "attached = \<lparr>dollar = Some 0, frameInDocument = True\<rparr>"

section \<open>Properties\<close>

subsection \<open>Response conversion\<close>

lemma encodeChar_no_quote: "CHR 0x22 \<notin> set (encodeChar c)"
  by simp

lemma tools_htmlEncodeAttr_no_quote: "CHR 0x22 \<notin> set (tools_htmlEncodeAttr x)"
  by (cases x) (auto simp del: encodeChar.simps simp: encodeChar_no_quote)

lemma attrValue_append: "CHR 0x22 \<notin> set v \<Longrightarrow> attrValue (v @ CHR 0x22 # rest) = v"
  unfolding attrValue_def by (induction v) auto

text \<open>
  Claim C10. For a response of type \<open>photo\<close>, the markup returned by the default
  conversion embeds \<open>htmlEncodeAttr( response.url )\<close> as the value of \<open>src\<close> and
  \<open>htmlEncodeAttr( response.title || '' )\<close> as the value of \<open>alt\<close>. With an encoder that
  never emits the attribute delimiter, reading either attribute up to its closing quote
  gives back exactly the encoded field, whatever characters the provider sent: the data
  cannot leave the attribute. A missing title is encoded as the empty string and raises
  no error.
\<close>

theorem photo_attributes_encoded:
  assumes "type r = ''photo''" and "\<And>x. CHR 0x22 \<notin> set (htmlEncodeAttr e x)"
  shows "let src = htmlEncodeAttr e (url r);
             alt = htmlEncodeAttr e (Some (case title r of None \<Rightarrow> [] | Some t \<Rightarrow> t));
             rest = ''\" style=\"max-width:100%;height:auto\" />''
         in responseToHtml e u r = Inr (Some (''<img src=\"'' @ src @ ''\" alt=\"'' @ alt @ rest), r)
            \<and> attrValue (src @ ''\" alt=\"'' @ alt @ rest) = src
            \<and> attrValue (alt @ rest) = alt
            \<and> (if title r = None then alt = htmlEncodeAttr e (Some []) else True)"
  using assms by (auto simp: Let_def responseToHtml_def attrValue_append)

theorem photo_attributes_encoded_witness:
  "responseToHtml browser ''u'' \<lparr>type = ''photo'', url = Some ''x\"y'', title = None, html = None\<rparr>
     = Inr (Some ''<img src=\"x&quot;y\" alt=\"\" style=\"max-width:100%;height:auto\" />'',
            \<lparr>type = ''photo'', url = Some ''x\"y'', title = None, html = None\<rparr>)
   \<and> attrValue ''x&quot;y\" alt=\"\" style=\"max-width:100%;height:auto\" />'' = ''x&quot;y''"
  using photo_attributes_encoded [of "\<lparr>type = ''photo'', url = Some ''x\"y'', title = None, html = None\<rparr>" browser "''u''"]
    tools_htmlEncodeAttr_no_quote
  by (simp add: browser_def Let_def)

lemma replace_iframe_hit:
  "prefix ''<iframe'' (c # cs) \<Longrightarrow>
     replace_iframe (c # cs) = ''<iframe tabindex=\"-1\"'' @ replace_iframe (drop 7 (c # cs))"
  by (simp only: replace_iframe.simps if_True)

lemma replace_iframe_miss:
  "\<not> prefix ''<iframe'' (c # cs) \<Longrightarrow> replace_iframe (c # cs) = c # replace_iframe cs"
  by (simp only: replace_iframe.simps if_False)

lemma iframe_straddle:
  assumes "prefix ''<iframe'' ((c # cs) @ ''<iframe'' @ t)"
  shows "prefix ''<iframe'' (c # cs)"
proof -
  from assms consider "prefix ''<iframe'' (c # cs)"
    | us where "''<iframe'' = (c # cs) @ us" "prefix us (''<iframe'' @ t)"
    unfolding prefix_append by blast
  then show ?thesis
  proof cases
    case 1 then show ?thesis .
  next
    case 2
    then show ?thesis
      by (auto simp: Cons_eq_append_conv append_eq_Cons_conv)
  qed
qed

lemma replace_iframe_append:
  "replace_iframe (s @ ''<iframe'' @ t) = replace_iframe s @ ''<iframe tabindex=\"-1\"'' @ replace_iframe t"
proof -
  define rest where "rest = ''<iframe'' @ t"
  define new where "new = ''<iframe tabindex=\"-1\"'' @ replace_iframe t"
  have base: "replace_iframe rest = new"
    unfolding rest_def new_def by simp
  have straddle: "prefix ''<iframe'' (c # cs)" if "prefix ''<iframe'' ((c # cs) @ rest)" for c cs
    using that unfolding rest_def by (rule iframe_straddle)
  have "replace_iframe (s @ rest) = replace_iframe s @ new"
  proof (induction s rule: replace_iframe.induct)
    case 1
    show ?case using base by simp
  next
    case (2 c cs)
    show ?case
    proof (cases "prefix ''<iframe'' (c # cs)")
      case True
      then obtain zs where c: "c = CHR ''<''" and cs: "cs = ''iframe'' @ zs"
        by (auto simp: prefix_def)
      have "drop 7 (c # cs) = zs" by (simp add: c cs)
      with 2(1)[OF True] have "replace_iframe (zs @ rest) = replace_iframe zs @ new" by simp
      then show ?thesis unfolding c cs by simp
    next
      case False
      have "\<not> prefix ''<iframe'' (c # (cs @ rest))"
        using straddle [of c cs] False by auto
      then have "replace_iframe (c # (cs @ rest)) = c # replace_iframe (cs @ rest)"
        by (rule replace_iframe_miss)
      then show ?thesis
        using replace_iframe_miss [OF False] 2(2)[OF False] by (simp del: replace_iframe.simps)
    qed
  qed
  then show ?thesis unfolding rest_def new_def by simp
qed

lemma replace_iframe_absent:
  "\<not> (\<exists>s t. h = s @ ''<iframe'' @ t) \<Longrightarrow> replace_iframe h = h"
proof (induction h rule: replace_iframe.induct)
  case 1
  show ?case by simp
next
  case (2 c cs)
  have np: "\<not> prefix ''<iframe'' (c # cs)"
  proof
    assume "prefix ''<iframe'' (c # cs)"
    then obtain zs where "c # cs = ''<iframe'' @ zs" by (auto simp only: prefix_def)
    then have "c # cs = [] @ ''<iframe'' @ zs" by (simp only: append_Nil)
    with 2(3) show False by blast
  qed
  have "\<not> (\<exists>s t. cs = s @ ''<iframe'' @ t)"
  proof
    assume "\<exists>s t. cs = s @ ''<iframe'' @ t"
    then obtain s t where "cs = s @ ''<iframe'' @ t" by blast
    then have "c # cs = (c # s) @ ''<iframe'' @ t" by simp
    with 2(3) show False by blast
  qed
  with 2(2)[OF np] have "replace_iframe cs = cs" by blast
  with replace_iframe_miss [OF np] show ?case by (simp only:)
qed

lemma request_errorCallback_log:
  "errorCallback (r_opts request) \<Longrightarrow>
     log (request_errorCallback request msg st)
       = log (handleError request msg st) @ [OptsErrorCallback (r_url request) msg]"
  by (simp add: request_errorCallback_def effect_def Let_def)

lemma heap_write_same: "heap st a = Some r \<Longrightarrow> st\<lparr>heap := (heap st)(a \<mapsto> r)\<rparr> = st"
  by (simp add: map_upd_triv)

lemma handleResponse_unsupported:
  assumes "r_response request = Some (Response a)" "heap st a = Some r"
    and "responseToHtml e (r_url request) r = Inr (None, r)"
  shows "handleResponse e request st = Inr (False, request_errorCallback request ''unsupportedUrl'' st)"
  using assms by (simp add: handleResponse_def heap_write_same)

text \<open>
  Claim C1, as amended. The default conversion returns, for type \<open>photo\<close>, an image
  element whose \<open>src\<close> is the (attribute-encoded) \<open>url\<close> of the response and whose \<open>alt\<close>
  is its title; for type \<open>video\<close> or \<open>rich\<close> and a response that carries an \<open>html\<close>
  fragment, that fragment with every occurrence of \<open><iframe\<close> rewritten to
  \<open><iframe tabindex="-1"\<close>: the rewriting distributes over every occurrence and leaves
  a fragment without one as it is; for any other type, \<open>null\<close>, and then
  \<open>finishLoading\<close> on a valid widget ends in the request's error callback, which hands
  \<open>unsupportedUrl\<close> to the caller's \<open>errorCallback\<close>.
\<close>

theorem default_conversion:
  "(type r = ''photo'' \<longrightarrow>
      responseToHtml e u r
        = Inr (Some (''<img src=\"'' @ htmlEncodeAttr e (url r) @ ''\" alt=\"'' @
                     htmlEncodeAttr e (Some (case title r of None \<Rightarrow> [] | Some t \<Rightarrow> t)) @
                     ''\" style=\"max-width:100%;height:auto\" />''), r))
   \<and> ((type r = ''video'' \<or> type r = ''rich'') \<and> html r = Some h \<longrightarrow>
      responseToHtml e u r = Inr (Some (replace_iframe h), r\<lparr>html := Some (replace_iframe h)\<rparr>)
      \<and> (\<forall>s t. h = s @ ''<iframe'' @ t \<longrightarrow>
            replace_iframe h = replace_iframe s @ ''<iframe tabindex=\"-1\"'' @ replace_iframe t)
      \<and> ((\<nexists>s t. h = s @ ''<iframe'' @ t) \<longrightarrow> replace_iframe h = h))
   \<and> (type r \<noteq> ''photo'' \<and> type r \<noteq> ''video'' \<and> type r \<noteq> ''rich'' \<longrightarrow>
      responseToHtml e u r = Inr (None, r)
      \<and> (r_that request \<in> instances st \<and> heap st a = Some r \<and> errorCallback (r_opts request) \<longrightarrow>
           (\<exists>st'. finishLoading e request (Response a) st = Inr st'
              \<and> st' = request_errorCallback (request\<lparr>r_response := Some (Response a)\<rparr>) ''unsupportedUrl'' st
              \<and> log st' = log (handleError (request\<lparr>r_response := Some (Response a)\<rparr>) ''unsupportedUrl'' st)
                             @ [OptsErrorCallback (r_url request) ''unsupportedUrl''])))"
proof (intro conjI impI)
  assume "type r = ''photo''"
  then show "responseToHtml e u r
        = Inr (Some (''<img src=\"'' @ htmlEncodeAttr e (url r) @ ''\" alt=\"'' @
                     htmlEncodeAttr e (Some (case title r of None \<Rightarrow> [] | Some t \<Rightarrow> t)) @
                     ''\" style=\"max-width:100%;height:auto\" />''), r)"
    by (simp add: responseToHtml_def)
next
  assume "(type r = ''video'' \<or> type r = ''rich'') \<and> html r = Some h"
  then show "responseToHtml e u r = Inr (Some (replace_iframe h), r\<lparr>html := Some (replace_iframe h)\<rparr>)"
    by (auto simp: responseToHtml_def)
next
  show "\<forall>s t. h = s @ ''<iframe'' @ t \<longrightarrow>
            replace_iframe h = replace_iframe s @ ''<iframe tabindex=\"-1\"'' @ replace_iframe t"
    using replace_iframe_append by blast
next
  assume "\<nexists>s t. h = s @ ''<iframe'' @ t"
  then show "replace_iframe h = h" by (rule replace_iframe_absent)
next
  assume "type r \<noteq> ''photo'' \<and> type r \<noteq> ''video'' \<and> type r \<noteq> ''rich''"
  then show "responseToHtml e u r = Inr (None, r)"
    by (simp add: responseToHtml_def)
next
  assume other: "type r \<noteq> ''photo'' \<and> type r \<noteq> ''video'' \<and> type r \<noteq> ''rich''"
    and h: "r_that request \<in> instances st \<and> heap st a = Some r \<and> errorCallback (r_opts request)"
  let ?q = "request\<lparr>r_response := Some (Response a)\<rparr>"
  from other have "responseToHtml e (r_url ?q) r = Inr (None, r)"
    by (simp add: responseToHtml_def)
  moreover have "r_response ?q = Some (Response a)" by simp
  moreover from h have "heap st a = Some r" by simp
  ultimately have "handleResponse e ?q st = Inr (False, request_errorCallback ?q ''unsupportedUrl'' st)"
    by (simp add: handleResponse_unsupported)
  with h have "finishLoading e request (Response a) st = Inr (request_errorCallback ?q ''unsupportedUrl'' st)"
    by (simp add: finishLoading_def)
  moreover have "log (request_errorCallback ?q ''unsupportedUrl'' st)
      = log (handleError ?q ''unsupportedUrl'' st) @ [OptsErrorCallback (r_url request) ''unsupportedUrl'']"
    using h request_errorCallback_log [of ?q] by simp
  ultimately show "\<exists>st'. finishLoading e request (Response a) st = Inr st'
              \<and> st' = request_errorCallback ?q ''unsupportedUrl'' st
              \<and> log st' = log (handleError ?q ''unsupportedUrl'' st)
                             @ [OptsErrorCallback (r_url request) ''unsupportedUrl'']"
    by simp
qed

theorem default_conversion_witness:
  "responseToHtml browser ''u''
      \<lparr>type = ''photo'', url = Some ''https://x/img.png'', title = Some ''T'', html = None\<rparr>
     = Inr (Some ''<img src=\"https://x/img.png\" alt=\"T\" style=\"max-width:100%;height:auto\" />'',
            \<lparr>type = ''photo'', url = Some ''https://x/img.png'', title = Some ''T'', html = None\<rparr>)
   \<and> responseToHtml browser ''u''
      \<lparr>type = ''rich'', url = None, title = None, html = Some ''<iframe src=\"//e/1\"></iframe>''\<rparr>
     = Inr (Some ''<iframe tabindex=\"-1\" src=\"//e/1\"></iframe>'',
            \<lparr>type = ''rich'', url = None, title = None,
              html = Some ''<iframe tabindex=\"-1\" src=\"//e/1\"></iframe>''\<rparr>)
   \<and> (\<exists>st'. finishLoading browser
          \<lparr>r_noNotifications = True, r_url = ''u'', r_task = None, r_response = None,
            r_cancel = Some 0,
            r_opts = \<lparr>callback = True, errorCallback = True, noNotifications = True\<rparr>,
            r_that = 0\<rparr>
          (Response 0)
          ((init {0})\<lparr>heap := [0 \<mapsto> \<lparr>type = ''link'', url = None, title = None, html = None\<rparr>],
                      nextAddr := 1\<rparr>) = Inr st'
        \<and> log st' = [OptsErrorCallback ''u'' ''unsupportedUrl''])"
proof (intro conjI)
  let ?photo = "\<lparr>type = ''photo'', url = Some ''https://x/img.png'', title = Some ''T'', html = None\<rparr>"
  have "type ?photo = ''photo''" by simp
  from default_conversion [where r = ?photo and e = browser and u = "''u''",
      THEN conjunct1, THEN mp, OF this]
  show "responseToHtml browser ''u'' ?photo
     = Inr (Some ''<img src=\"https://x/img.png\" alt=\"T\" style=\"max-width:100%;height:auto\" />'', ?photo)"
    by (simp add: browser_def)
next
  let ?h = "''<iframe src=\"//e/1\"></iframe>''"
  let ?rich = "\<lparr>type = ''rich'', url = None, title = None, html = Some ?h\<rparr>"
  have "(type ?rich = ''video'' \<or> type ?rich = ''rich'') \<and> html ?rich = Some ?h" by simp
  from default_conversion [where r = ?rich and e = browser and u = "''u''" and h = ?h,
      THEN conjunct2, THEN conjunct1, THEN mp, OF this, THEN conjunct1]
  show "responseToHtml browser ''u'' ?rich
     = Inr (Some ''<iframe tabindex=\"-1\" src=\"//e/1\"></iframe>'',
            \<lparr>type = ''rich'', url = None, title = None,
              html = Some ''<iframe tabindex=\"-1\" src=\"//e/1\"></iframe>''\<rparr>)"
    by simp
next
  let ?link = "\<lparr>type = ''link'', url = None, title = None, html = None\<rparr>"
  let ?q = "\<lparr>r_noNotifications = True, r_url = ''u'', r_task = None, r_response = None,
            r_cancel = Some 0,
            r_opts = \<lparr>callback = True, errorCallback = True, noNotifications = True\<rparr>,
            r_that = 0\<rparr>"
  let ?st = "(init {0})\<lparr>heap := [0 \<mapsto> ?link], nextAddr := 1\<rparr>"
  have other: "type ?link \<noteq> ''photo'' \<and> type ?link \<noteq> ''video'' \<and> type ?link \<noteq> ''rich''" by simp
  have valid: "r_that ?q \<in> instances ?st \<and> heap ?st 0 = Some ?link \<and> errorCallback (r_opts ?q)"
    by (simp add: init_def)
  from default_conversion [where r = ?link and e = browser and u = "''u''" and a = 0
      and request = ?q and st = ?st,
      THEN conjunct2, THEN conjunct2, THEN mp, OF other, THEN conjunct2, THEN mp, OF valid]
  show "\<exists>st'. finishLoading browser ?q (Response 0) ?st = Inr st'
        \<and> log st' = [OptsErrorCallback ''u'' ''unsupportedUrl'']"
    by (simp add: init_def handleError_def)
qed

text \<open>
  The claim as stated, for every provider response, fails for a response of type
  \<open>video\<close> (or \<open>rich\<close>) that carries no \<open>html\<close>: \<open>response.html.replace\<close> on line 664
  raises, so the conversion returns neither a fragment nor \<open>null\<close>; the exception leaves
  the turn that delivers the response and neither of the caller's callbacks is invoked.
\<close>

theorem missing_html_raises:
  "responseToHtml browser ''u'' \<lparr>type = ''video'', url = None, title = None, html = None\<rparr>
     = Inl TypeError
   \<and> log (run browser
            [Load 0 ''u'' \<lparr>callback = True, errorCallback = True, noNotifications = True\<rparr>,
             ProviderScript 0 \<lparr>type = ''video'', url = None, title = None, html = None\<rparr>,
             TransportTimeout] (init {0}))
     = [Uncaught TypeError]"
  by (simp add: run_def init_def loadContent_def getCachedResponse_def sendRequest_def
        finishLoading_def handleResponse_def responseToHtml_def effect_def uncaught_def
        transport_def Jsonp_sendRequest_def Jsonp_init_def Jsonp_callback_def Jsonp_timeout_def
        Jsonp_cleanUp_def browser_def objectPrototype_def Let_def)

subsection \<open>Transport\<close>

lemma cleanUp_done: "scriptElement j k = None \<Longrightarrow> Jsonp_cleanUp k j = j"
  by (simp add: Jsonp_cleanUp_def)

lemma cleanUp_clears: "scriptElement (Jsonp_cleanUp k j) k = None"
  by (simp add: Jsonp_cleanUp_def split: option.splits)

lemma cleanUp_other: "scriptElement j k = None \<Longrightarrow> scriptElement (Jsonp_cleanUp k' j) k = None"
  by (simp add: Jsonp_cleanUp_def split: option.splits)

lemma cleanUp_first:
  "scriptElement j k = Some el \<Longrightarrow>
     k \<notin> jsonpCallbacks (Jsonp_cleanUp k j) \<and> el \<notin> set (body (Jsonp_cleanUp k j))"
  by (simp add: Jsonp_cleanUp_def)

lemma step_keeps_null:
  "scriptElement j k = None \<Longrightarrow> scriptElement (snd (Jsonp_step ev j)) k = None"
  by (cases ev)
     (auto simp: Jsonp_callback_def Jsonp_onerror_def Jsonp_timeout_def cleanUp_other
           split: option.splits list.splits)

lemma run_keeps_null:
  "scriptElement j k = None \<Longrightarrow> scriptElement (snd (Jsonp_run evs j)) k = None"
proof (induction evs arbitrary: j)
  case Nil
  then show ?case by simp
next
  case (Cons ev evs)
  from Cons.prems have "scriptElement (snd (Jsonp_step ev j)) k = None"
    by (rule step_keeps_null)
  from Cons.IH [OF this] show ?case
    by (simp add: split_beta Let_def)
qed

text \<open>
  Claim C6. Cleanup is idempotent. For a request that was sent and not yet cleaned up
  (\<open>scriptElement\<close> still holds its element), whichever comes first of \<open>cancel()\<close>, the
  error listener and the deferred success delivery deregisters the callback key and
  removes the script element from the body; from then on, whatever else happens to the
  transport, another cleanup leaves the state as it is, and \<open>cancel()\<close> in particular
  changes nothing, raises nothing and invokes no callback.
\<close>

theorem transport_cleanup_idempotent:
  assumes "scriptElement j k = Some el"
    and "ev = Cancel k
         \<or> (ev = ScriptError k \<and> (\<exists>h. onerror j k = Some h))
         \<or> (ev = TimeoutFires \<and> (\<exists>r rest. timeouts j = (k, r) # rest))"
  shows "Jsonp_cleanUp k (Jsonp_cleanUp k j) = Jsonp_cleanUp k j
         \<and> (let j' = snd (Jsonp_step ev j)
            in k \<notin> jsonpCallbacks j' \<and> el \<notin> set (body j') \<and> scriptElement j' k = None
               \<and> (\<forall>evs. let j'' = snd (Jsonp_run evs j')
                         in Jsonp_cleanUp k j'' = j'' \<and> Jsonp_step (Cancel k) j'' = ([], j'')))"
proof -
  have idem: "Jsonp_cleanUp k (Jsonp_cleanUp k j) = Jsonp_cleanUp k j"
    by (simp add: cleanUp_done cleanUp_clears)
  define j' where "j' = snd (Jsonp_step ev j)"
  have first: "k \<notin> jsonpCallbacks j' \<and> el \<notin> set (body j') \<and> scriptElement j' k = None"
    using assms unfolding j'_def
    by (auto simp: Jsonp_onerror_def Jsonp_timeout_def Jsonp_cleanUp_def)
  have later: "Jsonp_cleanUp k j'' = j'' \<and> Jsonp_step (Cancel k) j'' = ([], j'')"
    if "j'' = snd (Jsonp_run evs j')" for evs j''
  proof -
    from first have "scriptElement j'' k = None"
      unfolding that by (intro run_keeps_null) simp
    then show ?thesis by (simp add: cleanUp_done)
  qed
  show ?thesis
    using idem first later unfolding j'_def Let_def by blast
qed

theorem transport_cleanup_idempotent_witness:
  "(let j' = snd (Jsonp_step TimeoutFires
                   (snd (Jsonp_step (ScriptRuns 0 (5::nat)) (snd (Jsonp_sendRequest True Jsonp_init)))))
    in jsonpCallbacks j' = {} \<and> body j' = [] \<and> scriptElement j' 0 = None
       \<and> Jsonp_step (Cancel 0) j' = ([], j')
       \<and> Jsonp_step (Cancel 0) (snd (Jsonp_step (ScriptError 0) j')) = ([], snd (Jsonp_step (ScriptError 0) j')))"
proof -
  let ?j = "snd (Jsonp_step (ScriptRuns 0 (5::nat)) (snd (Jsonp_sendRequest True Jsonp_init)))"
  have a: "scriptElement ?j 0 = Some 0"
    by (simp add: Jsonp_sendRequest_def Jsonp_init_def Jsonp_callback_def)
  have b: "TimeoutFires = Cancel 0
         \<or> (TimeoutFires = ScriptError 0 \<and> (\<exists>h. onerror ?j 0 = Some h))
         \<or> (TimeoutFires = TimeoutFires \<and> (\<exists>r rest. timeouts ?j = (0, r) # rest))"
    by (simp add: Jsonp_sendRequest_def Jsonp_init_def Jsonp_callback_def)
  from transport_cleanup_idempotent [OF a b, THEN conjunct2]
  have c: "let j' = snd (Jsonp_step TimeoutFires ?j)
            in 0 \<notin> jsonpCallbacks j' \<and> 0 \<notin> set (body j') \<and> scriptElement j' 0 = None
               \<and> (\<forall>evs. let j'' = snd (Jsonp_run evs j')
                         in Jsonp_cleanUp 0 j'' = j'' \<and> Jsonp_step (Cancel 0) j'' = ([], j''))" .
  then have d: "\<forall>evs. let j'' = snd (Jsonp_run evs (snd (Jsonp_step TimeoutFires ?j)))
                         in Jsonp_step (Cancel 0) j'' = ([], j'')"
    by (simp add: Let_def)
  from d [THEN spec, of "[]"] d [THEN spec, of "[ScriptError 0]"]
  show ?thesis
    by (simp add: Let_def Jsonp_sendRequest_def Jsonp_init_def Jsonp_callback_def
        Jsonp_timeout_def Jsonp_cleanUp_def Jsonp_onerror_def)
qed

subsection \<open>Evaluating the pipeline\<close>

lemmas coordinator_defs =
  run_def init_def loadContent_def getCachedResponse_def sendRequest_def createTask_def
  finishLoading_def handleResponse_def responseToHtml_def request_errorCallback_def
  handleError_def request_cancel_def cacheResponse_def setContent_def addContent_def
  effect_def uncaught_def transport_def task_done_def task_cancel_def task_resolve_def
  aggregator_resolve_def aggregator_createTask_def aggregator_isFinished_def
  Jsonp_sendRequest_def Jsonp_init_def Jsonp_callback_def Jsonp_timeout_def
  Jsonp_onerror_def Jsonp_cleanUp_def browser_def objectPrototype_def notifying_def Let_def

text \<open>
  Claim C5, evaluated where it fails. A request is sent; the provider's script runs and
  calls the registered function, which defers the delivery (line 57); the holder of the
  request calls \<open>cancel()\<close>; the deferred closure runs. The second \<open>cleanUp\<close> is a no-op
  and \<open>callback( response )\<close> is invoked after the cancellation: at the transport the
  success callback is invoked, and through \<open>loadContent\<close> the widget's content is set
  and the caller's \<open>opts.callback\<close> is called after \<open>requestCanceled\<close> was fired.
\<close>

theorem callback_after_cancel:
  "fst (Jsonp_run [ScriptRuns 0 (5::nat), Cancel 0, TimeoutFires]
          (snd (Jsonp_sendRequest True Jsonp_init)))
     = [Happened (ScriptRuns 0 5), Happened (Cancel 0), Happened TimeoutFires,
        Invoked (Callback 0 5)]
   \<and> (case loadContent browser 0 ''u''
              \<lparr>callback = True, errorCallback = True, noNotifications = True\<rparr> (init {0}) of
         Inl x \<Rightarrow> False
       | Inr (None, st) \<Rightarrow> False
       | Inr (Some request, st) \<Rightarrow>
           log (run browser
                  [ProviderScript 0 \<lparr>type = ''rich'', url = None, title = None, html = Some ''x''\<rparr>,
                   Abort request, TransportTimeout] st)
             = [RequestCanceled ''u'', SetContent 0 ''u'' ''x'', OptsCallback ''u'',
                AddContent 0 (Some ''x'')])"
  by (simp add: coordinator_defs)

text \<open>
  Claim C4, evaluated where it fails. A \<open>rich\<close> response with one frame is loaded and
  cached under its URL; its \<open>html\<close> then carries one \<open>tabindex\<close>. A second
  \<open>loadContent\<close> for the same URL hits the cache and runs \<open>finishLoading\<close> on the cached
  object, and \<open>_responseToHtml\<close> assigns to its \<open>html\<close> again: the cached response now
  carries the attribute twice.
\<close>

theorem cached_response_rewritten_on_hit:
  "let opts = \<lparr>callback = True, errorCallback = True, noNotifications = True\<rparr>;
       response = \<lparr>type = ''rich'', url = None, title = None,
                    html = Some ''<iframe src=\"x\"></iframe>''\<rparr>;
       st1 = run browser [Load 0 ''u'' opts, ProviderScript 0 response, TransportTimeout] (init {0});
       st2 = run browser [Load 0 ''u'' opts, CacheTimeout] st1
   in cache st1 ''u'' = Some (Response 0) \<and> cache st2 ''u'' = Some (Response 0)
      \<and> map_option html (heap st1 0) = Some (Some ''<iframe tabindex=\"-1\" src=\"x\"></iframe>'')
      \<and> map_option html (heap st2 0)
          = Some (Some ''<iframe tabindex=\"-1\" tabindex=\"-1\" src=\"x\"></iframe>'')"
  by (simp add: coordinator_defs)

subsection \<open>The frame-content cache\<close>

lemma isDetached_always: "isDetached d element = Inr True"
  by (simp add: isDetached_def js_not_def)

text \<open>
  Claim C3, evaluated where it fails. \<open>isDetached\<close> answers \<open>true\<close> for every element:
  line 998 negates the window wrapper, so \<open>window\<close> is a boolean and \<open>window.$\<close> is
  undefined. After pushing an element whose frame is still attached, the pop returns
  that element and empties the list; and with an attached element pushed before a
  detached one, the pop returns the attached element and leaves the detached one.
\<close>

theorem attached_frame_returned:
  "getCachedFrameContents (\<lambda>element. attached) (cacheFrameContents Map.empty ''u'' 1) ''u''
     = Inr (Some 1, [''u'' \<mapsto> []])
   \<and> getCachedFrameContents
        ((\<lambda>element. attached)(2 := \<lparr>dollar = None, frameInDocument = False\<rparr>))
        (cacheFrameContents (cacheFrameContents Map.empty ''u'' 1) ''u'' 2) ''u''
     = Inr (Some 1, [''u'' \<mapsto> [2]])"
  by (simp add: getCachedFrameContents_def cacheFrameContents_def isDetached_always splice1_def)

subsection \<open>The coordinator\<close>

lemma loadContent_hit:
  "getCachedResponse e st u = Some a \<Longrightarrow>
     loadContent e that u opts st
       = Inr (None, st\<lparr>timers := timers st @
            [(\<lparr>r_noNotifications = noNotifications opts, r_url = u, r_task = None,
               r_response = None, r_cancel = None, r_opts = opts, r_that = that\<rparr>, a)]\<rparr>)"
  by (simp add: loadContent_def)

lemma finishLoading_success:
  assumes "r_that request \<in> instances st" and "heap st a = Some r"
    and "type r = ''photo'' \<or> ((type r = ''video'' \<or> type r = ''rich'') \<and> html r \<noteq> None)"
    and "callback (r_opts request)"
  shows "\<exists>st'. finishLoading e request (Response a) st = Inr st'
           \<and> OptsCallback (r_url request) \<in> set (log st')
           \<and> cache st' (r_url request) = Some (Response a)"
  using assms
  by (auto simp: finishLoading_def handleResponse_def responseToHtml_def Let_def
        cacheResponse_def setContent_def addContent_def effect_def task_done_def task_resolve_def
        split: option.splits prod.splits)

text \<open>
  Claim C2. When the response for a URL is cached, \<open>loadContent\<close> invokes nothing in its
  own turn: the log of effects is unchanged (no success callback, nor anything else),
  the transport is untouched, and the one thing added is a timeout closure that will
  call \<open>finishLoading\<close> on the cached response. When that closure is the next to run, the
  turn that runs it is \<open>finishLoading\<close>, and if the widget is still valid, the cached
  response convertible and a callback supplied, the caller's callback is invoked there.
\<close>

theorem cache_hit_is_asynchronous:
  assumes "cache st u = Some a"
  shows "\<exists>request st'.
           loadContent e that u opts st = Inr (None, st')
         \<and> log st' = log st
         \<and> jsonp st' = jsonp st \<and> sent st' = sent st
         \<and> timers st' = timers st @ [(request, a)]
         \<and> r_url request = u \<and> r_opts request = opts \<and> r_that request = that
         \<and> (if timers st = []
            then step e st' CacheTimeout = uncaught (finishLoading e request a (st'\<lparr>timers := []\<rparr>))
            else True)
         \<and> (if timers st = [] \<and> that \<in> instances st \<and> callback opts
               \<and> (case a of
                     Prototype k \<Rightarrow> False
                   | Response b \<Rightarrow>
                       (case heap st b of
                          None \<Rightarrow> False
                        | Some r \<Rightarrow> type r = ''photo'' \<or> ((type r = ''video'' \<or> type r = ''rich'') \<and> html r \<noteq> None)))
            then OptsCallback u \<in> set (log (step e st' CacheTimeout))
            else True)"
proof -
  let ?q = "\<lparr>r_noNotifications = noNotifications opts, r_url = u, r_task = None,
               r_response = None, r_cancel = None, r_opts = opts, r_that = that\<rparr>"
  let ?st' = "st\<lparr>timers := timers st @ [(?q, a)]\<rparr>"
  have "getCachedResponse e st u = Some a"
    using assms by (simp add: getCachedResponse_def)
  then have l: "loadContent e that u opts st = Inr (None, ?st')"
    by (rule loadContent_hit)
  have fires: "OptsCallback u \<in> set (log (step e ?st' CacheTimeout))"
    if "timers st = []" "that \<in> instances st" "callback opts" "a = Response b" "heap st b = Some r"
      "type r = ''photo'' \<or> ((type r = ''video'' \<or> type r = ''rich'') \<and> html r \<noteq> None)" for b r
  proof -
    have "\<exists>s. finishLoading e ?q (Response b) (?st'\<lparr>timers := []\<rparr>) = Inr s
           \<and> OptsCallback (r_url ?q) \<in> set (log s) \<and> cache s (r_url ?q) = Some (Response b)"
      using that by (intro finishLoading_success [where r = r]) simp_all
    then show ?thesis using that(1,4) by (auto simp: uncaught_def)
  qed
  show ?thesis
    apply (rule exI [of _ ?q], rule exI [of _ ?st'])
    using l fires by (auto split: option.splits reference.splits)
qed

theorem cache_hit_is_asynchronous_witness:
  "(\<exists>request st'.
       loadContent browser 0 ''u'' \<lparr>callback = True, errorCallback = False, noNotifications = False\<rparr>
         ((init {0})\<lparr>cache := [''u'' \<mapsto> Response 0],
                     heap := [0 \<mapsto> \<lparr>type = ''rich'', url = None, title = None, html = Some ''x''\<rparr>],
                     nextAddr := 1\<rparr>) = Inr (None, st')
     \<and> log st' = [] \<and> timers st' = [(request, Response 0)]
     \<and> OptsCallback ''u'' \<in> set (log (step browser st' CacheTimeout)))"
proof -
  let ?st = "(init {0})\<lparr>cache := [''u'' \<mapsto> Response 0],
                     heap := [0 \<mapsto> \<lparr>type = ''rich'', url = None, title = None, html = Some ''x''\<rparr>],
                     nextAddr := 1\<rparr>"
  have "cache ?st ''u'' = Some (Response 0)" by simp
  from cache_hit_is_asynchronous [OF this, of browser 0 "\<lparr>callback = True, errorCallback = False, noNotifications = False\<rparr>"]
  obtain request st' where
    "loadContent browser 0 ''u'' \<lparr>callback = True, errorCallback = False, noNotifications = False\<rparr> ?st = Inr (None, st')"
    "log st' = log ?st" "timers st' = timers ?st @ [(request, Response 0)]"
    "OptsCallback ''u'' \<in> set (log (step browser st' CacheTimeout))"
    by (auto simp: init_def)
  then show ?thesis by (intro exI [of _ request] exI [of _ st']) (simp add: init_def)
qed

lemma createTask_transport:
  "jsonp (snd (createTask st)) = jsonp st \<and> sent (snd (createTask st)) = sent st"
  by (simp add: createTask_def effect_def aggregator_createTask_def Let_def
        split: option.splits prod.splits)

lemma loadContent_miss:
  assumes "getCachedResponse e st u = None" and "\<not> loneSurrogate e u"
  shows "\<exists>request st'.
           loadContent e that u opts st = Inr (Some request, st')
         \<and> r_url request = u \<and> r_opts request = opts \<and> r_that request = that
         \<and> r_cancel request = Some (nextNumber (jsonp st))
         \<and> sent st' (nextNumber (jsonp st)) = Some request
         \<and> nextNumber (jsonp st) \<in> jsonpCallbacks (jsonp st')
         \<and> body (jsonp st') = body (jsonp st) @ [nextNumber (jsonp st)]
         \<and> nextNumber (jsonp st') = Suc (nextNumber (jsonp st))"
proof (cases "noNotifications opts")
  case True
  with assms show ?thesis
    by (simp add: loadContent_def sendRequest_def Jsonp_sendRequest_def Let_def)
next
  case False
  obtain t s where c: "createTask st = (t, s)" by (cases "createTask st")
  with createTask_transport [of st] have "jsonp s = jsonp st" by simp
  with assms False c show ?thesis
    by (simp add: loadContent_def sendRequest_def Jsonp_sendRequest_def Let_def)
qed

lemma loadContent_raises:
  assumes "getCachedResponse e st u = None" and "loneSurrogate e u"
  shows "loadContent e that u opts st
           = Inl (URIError, if noNotifications opts then st else snd (createTask st))"
  using assms
  by (simp add: loadContent_def sendRequest_def Let_def split: prod.splits)

text \<open>
  Claim C7, evaluated where it fails. Nothing has been cached, and \<open>loadContent\<close> is
  called for the URL \<open>constructor\<close>. \<open>this._cache[ url ]\<close> finds the property that the
  plain object \<open>_cache\<close> inherits from \<open>Object.prototype\<close>, which is truthy, so the call
  takes the path of a cache hit: it returns \<open>undefined\<close> instead of the request, sends
  nothing, and the timeout later hands the inherited function to \<open>finishLoading\<close>,
  which ends in the error callback with \<open>unsupportedUrl\<close>.
\<close>

theorem inherited_key_taken_for_hit:
  "cache (init {0}) ''constructor'' = None
   \<and> (case loadContent browser 0 ''constructor'' notifying (init {0}) of
         Inl x \<Rightarrow> False
       | Inr (Some request, st) \<Rightarrow> False
       | Inr (None, st) \<Rightarrow>
           jsonp st = Jsonp_init \<and> log st = []
           \<and> map snd (timers st) = [Prototype ''constructor'']
           \<and> log (step browser st CacheTimeout)
               = [OptsErrorCallback ''constructor'' ''unsupportedUrl''])"
  by (simp add: coordinator_defs)

lemma task_done_other:
  "cache (task_done t st) = cache st \<and> heap (task_done t st) = heap st
   \<and> timers (task_done t st) = timers st \<and> jsonp (task_done t st) = jsonp st
   \<and> sent (task_done t st) = sent st \<and> instances (task_done t st) = instances st"
  by (simp add: task_done_def task_resolve_def effect_def Let_def split: prod.splits)

lemma task_done_log:
  "log (task_done (g, i) st)
     = log st @ TaskDone (g, i) #
         (if g < length (aggregators st) \<and> fst (aggregator_resolve Done i (aggregators st ! g))
          then [AggregatorFinished g] else [])"
  by (simp add: task_done_def task_resolve_def effect_def Let_def split: prod.splits)

lemma task_done_resolves:
  "g < length (aggregators st) \<Longrightarrow> i < length (aggregators st ! g) \<Longrightarrow>
     aggregators (task_done (g, i) st) ! g ! i \<noteq> Pending"
  by (auto simp: task_done_def task_resolve_def effect_def Let_def aggregator_resolve_def
        split: prod.splits)

text \<open>
  Claim C8. When a response arrives for a widget that is no longer among the editor's
  instances, \<open>finishLoading\<close> returns normally; the response cache, the response objects
  and the pending work are untouched; the only effects are the warning
  \<open>embedbase-widget-invalid\<close> and, when the request has a task, the call of
  \<open>task.done()\<close> (with the aggregator's \<open>finished\<close> if this was the last outstanding
  task), after which the task is no longer outstanding. Neither of the caller's
  callbacks is invoked, no content is set or added, no notification is shown.
\<close>

theorem destroyed_widget_discards_response:
  assumes "r_that request \<notin> instances st"
  shows "\<exists>st'. finishLoading e request a st = Inr st'
           \<and> cache st' = cache st \<and> heap st' = heap st \<and> timers st' = timers st
           \<and> jsonp st' = jsonp st
           \<and> (case r_task request of
                None \<Rightarrow> log st' = log st @ [Warn ''embedbase-widget-invalid'']
              | Some (g, i) \<Rightarrow>
                  log st' = log st @ Warn ''embedbase-widget-invalid'' # TaskDone (g, i) #
                     (if g < length (aggregators st)
                         \<and> fst (aggregator_resolve Done i (aggregators st ! g))
                      then [AggregatorFinished g] else [])
                  \<and> (if g < length (aggregators st) \<and> i < length (aggregators st ! g)
                     then aggregators st' ! g ! i \<noteq> Pending else True))"
proof (cases "r_task request")
  case None
  with assms show ?thesis
    by (simp add: finishLoading_def effect_def)
next
  case (Some t)
  obtain g i where t: "t = (g, i)" by (cases t)
  let ?st1 = "effect (Warn ''embedbase-widget-invalid'') st"
  have f: "finishLoading e request a st = Inr (task_done (g, i) ?st1)"
    using assms Some t by (simp add: finishLoading_def)
  have a1: "aggregators ?st1 = aggregators st" "log ?st1 = log st @ [Warn ''embedbase-widget-invalid'']"
    "cache ?st1 = cache st" "heap ?st1 = heap st" "timers ?st1 = timers st" "jsonp ?st1 = jsonp st"
    by (simp_all add: effect_def)
  show ?thesis
    using f Some t a1 task_done_other [of "(g, i)" ?st1] task_done_log [of g i ?st1]
      task_done_resolves [of g ?st1 i]
    by simp
qed

theorem destroyed_widget_discards_response_witness:
  "(\<exists>st'. finishLoading browser
            \<lparr>r_noNotifications = False, r_url = ''u'', r_task = Some (0, 0), r_response = None,
              r_cancel = Some 0, r_opts = notifying, r_that = 0\<rparr> (Response 0)
            ((init {})\<lparr>aggregators := [ [Pending] ], aggregator := Some 0,
                       heap := [0 \<mapsto> \<lparr>type = ''rich'', url = None, title = None, html = Some ''x''\<rparr>]\<rparr>)
          = Inr st'
      \<and> cache st' = Map.empty
      \<and> log st' = [Warn ''embedbase-widget-invalid'', TaskDone (0, 0), AggregatorFinished 0]
      \<and> aggregators st' ! 0 ! 0 \<noteq> Pending)"
proof -
  let ?q = "\<lparr>r_noNotifications = False, r_url = ''u'', r_task = Some (0, 0), r_response = None,
              r_cancel = Some 0, r_opts = notifying, r_that = 0\<rparr>"
  let ?st = "(init {})\<lparr>aggregators := [ [Pending] ], aggregator := Some 0,
                       heap := [0 \<mapsto> \<lparr>type = ''rich'', url = None, title = None, html = Some ''x''\<rparr>]\<rparr>"
  have "r_that ?q \<notin> instances ?st" by (simp add: init_def)
  from destroyed_widget_discards_response [OF this, of browser "Response 0"]
  obtain st' where "finishLoading browser ?q (Response 0) ?st = Inr st'" "cache st' = cache ?st"
    "log st' = [Warn ''embedbase-widget-invalid'', TaskDone (0, 0), AggregatorFinished 0]"
    "aggregators st' ! 0 ! 0 \<noteq> Pending"
    by (auto simp: init_def aggregator_resolve_def aggregator_isFinished_def)
  then show ?thesis by (intro exI [of _ st']) (simp add: init_def)
qed

subsection \<open>Progress aggregation\<close>

lemma createTask_new:
  assumes "fresh_aggregator st"
  shows "createTask st
           = ((length (aggregators st), 0),
              st\<lparr>aggregators := aggregators st @ [ [Pending] ],
                 aggregator := Some (length (aggregators st)),
                 log := log st @ [AggregatorCreated (length (aggregators st))]\<rparr>)"
  using assms
  by (auto simp: fresh_aggregator_def createTask_def effect_def aggregator_createTask_def Let_def
        split: option.splits)

lemma createTask_reuse:
  assumes "aggregator st = Some g" "g < length (aggregators st)"
    and "\<not> aggregator_isFinished (aggregators st ! g)"
  shows "createTask st
           = ((g, length (aggregators st ! g)),
              st\<lparr>aggregators := (aggregators st)[g := aggregators st ! g @ [Pending]]\<rparr>)"
  using assms
  by (simp add: createTask_def aggregator_createTask_def Let_def)

lemma dispatched_cache:
  "cache st' = cache st \<Longrightarrow> dispatched e st' c = dispatched e st c"
  by (simp add: dispatched_def getCachedResponse_def split: prod.splits)

lemma loadContent_notifying:
  assumes "dispatched e st (that, u, opts)" and "createTask st = (t, s)"
  shows "\<exists>request st'. loadContent e that u opts st = Inr (Some request, st')
           \<and> r_task request = Some t
           \<and> aggregators st' = aggregators s \<and> aggregator st' = aggregator s
           \<and> log st' = log s \<and> cache st' = cache s"
  using assms
  by (simp add: dispatched_def loadContent_def sendRequest_def Jsonp_sendRequest_def Let_def)

lemma createTask_cache: "cache (snd (createTask st)) = cache st"
  by (simp add: createTask_def effect_def aggregator_createTask_def Let_def
        split: option.splits prod.splits)

lemma loadContent_reuse:
  assumes "dispatched e st (that, u, opts)" "aggregator st = Some g" "g < length (aggregators st)"
    and "\<not> aggregator_isFinished (aggregators st ! g)"
  shows "\<exists>request st'. loadContent e that u opts st = Inr (Some request, st')
           \<and> r_task request = Some (g, length (aggregators st ! g))
           \<and> aggregators st' = (aggregators st)[g := aggregators st ! g @ [Pending]]
           \<and> aggregator st' = Some g
           \<and> log st' = log st \<and> cache st' = cache st"
  using loadContent_notifying [OF assms(1) createTask_reuse [OF assms(2-4)]] assms(2)
  by simp

lemma loadContent_new:
  assumes "dispatched e st (that, u, opts)" "fresh_aggregator st"
  shows "\<exists>request st'. loadContent e that u opts st = Inr (Some request, st')
           \<and> r_task request = Some (length (aggregators st), 0)
           \<and> aggregators st' = aggregators st @ [ [Pending] ]
           \<and> aggregator st' = Some (length (aggregators st))
           \<and> log st' = log st @ [AggregatorCreated (length (aggregators st))]
           \<and> cache st' = cache st"
  using loadContent_notifying [OF assms(1) createTask_new [OF assms(2)]]
  by simp

lemma taskOf_Some: "taskOf (Some request) = r_task request"
  by (simp add: taskOf_def)

lemma loadAll_reuse:
  assumes "list_all (dispatched e st) calls" "aggregator st = Some g" "g < length (aggregators st)"
    and "aggregators st ! g = replicate k Pending" "0 < k"
  shows "\<exists>rs st'. loadAll e calls st = Inr (rs, st')
           \<and> map taskOf rs = map (\<lambda>i. Some (g, i)) [k..<k + length calls]
           \<and> aggregators st' = (aggregators st)[g := replicate (k + length calls) Pending]
           \<and> aggregator st' = Some g \<and> log st' = log st \<and> cache st' = cache st"
  using assms
proof (induction calls arbitrary: st k)
  case Nil
  have "(aggregators st)[g := replicate k Pending] = aggregators st"
    using Nil.prems(4) list_update_id [of "aggregators st" g] by simp
  with Nil.prems show ?case by simp
next
  case (Cons c calls)
  obtain that u opts where c: "c = (that, u, opts)" by (cases c)
  from Cons.prems c have miss: "dispatched e st (that, u, opts)" by simp
  from Cons.prems have nf: "\<not> aggregator_isFinished (aggregators st ! g)"
    by (cases k) (simp_all add: aggregator_isFinished_def)
  from loadContent_reuse [OF miss Cons.prems(2,3) nf]
  obtain request st1 where 1: "loadContent e that u opts st = Inr (Some request, st1)"
    "r_task request = Some (g, length (aggregators st ! g))"
    "aggregators st1 = (aggregators st)[g := aggregators st ! g @ [Pending]]"
    "aggregator st1 = Some g" "log st1 = log st" "cache st1 = cache st"
    by blast
  have a1: "aggregators st1 ! g = replicate (Suc k) Pending"
    using 1(3) Cons.prems(3,4) by (simp add: replicate_append_same)
  have "dispatched e st1 = dispatched e st"
    using dispatched_cache [OF 1(6)] by (rule ext)
  then have "list_all (dispatched e st1) calls" using Cons.prems(1) by simp
  from Cons.IH [OF this 1(4) _ a1] 1(3) Cons.prems(3)
  obtain rs st' where 2: "loadAll e calls st1 = Inr (rs, st')"
    "map taskOf rs = map (\<lambda>i. Some (g, i)) [Suc k..<Suc k + length calls]"
    "aggregators st' = (aggregators st1)[g := replicate (Suc k + length calls) Pending]"
    "aggregator st' = Some g" "log st' = log st1" "cache st' = cache st1"
    by auto
  have "[k..<Suc (k + length calls)] = k # [Suc k..<Suc (k + length calls)]"
    by (rule upt_conv_Cons) simp
  with 1 2 Cons.prems(4) c show ?case
    by (simp add: taskOf_Some del: upt_Suc)
qed

lemma resolve_step:
  assumes "g < length (aggregators st)"
  shows "g < length (aggregators (task_resolve s t st))
         \<and> length (aggregators (task_resolve s t st) ! g) = length (aggregators st ! g)
         \<and> (\<forall>i < length (aggregators st ! g).
               (s \<noteq> Pending \<and> t = (g, i)) \<or> aggregators st ! g ! i \<noteq> Pending
               \<longrightarrow> aggregators (task_resolve s t st) ! g ! i \<noteq> Pending)
         \<and> count_list (log (task_resolve s t st)) (AggregatorFinished g)
             = count_list (log st) (AggregatorFinished g)
               + (if Pending \<in> set (aggregators st ! g)
                     \<and> Pending \<notin> set (aggregators (task_resolve s t st) ! g)
                  then 1 else 0)"
proof -
  obtain g' i where t: "t = (g', i)" by (cases t)
  show ?thesis
  proof (cases "g' < length (aggregators st)")
    case False
    then show ?thesis using assms t by (auto simp: task_resolve_def)
  next
    case True
    show ?thesis
    proof (cases "g' = g")
      case False
      then show ?thesis using assms t True
        by (auto simp: task_resolve_def aggregator_resolve_def Let_def)
    next
      case same: True
      show ?thesis
      proof (cases "i < length (aggregators st ! g) \<and> aggregators st ! g ! i = Pending")
        case False
        then show ?thesis using assms t same
          by (auto simp: task_resolve_def aggregator_resolve_def Let_def)
      next
        case True
        then have "Pending \<in> set (aggregators st ! g)" by (metis nth_mem)
        then show ?thesis using assms t same True
          by (auto simp: task_resolve_def aggregator_resolve_def aggregator_isFinished_def
                Let_def nth_list_update)
      qed
    qed
  qed
qed


lemma op_step:
  assumes "g < length (aggregators st)"
  shows "g < length (aggregators (if d then task_done t st else task_cancel t st))
         \<and> length (aggregators (if d then task_done t st else task_cancel t st) ! g)
             = length (aggregators st ! g)
         \<and> (\<forall>i < length (aggregators st ! g).
               t = (g, i) \<or> aggregators st ! g ! i \<noteq> Pending
               \<longrightarrow> aggregators (if d then task_done t st else task_cancel t st) ! g ! i \<noteq> Pending)
         \<and> count_list (log (if d then task_done t st else task_cancel t st)) (AggregatorFinished g)
             = count_list (log st) (AggregatorFinished g)
               + (if Pending \<in> set (aggregators st ! g)
                     \<and> Pending \<notin> set (aggregators (if d then task_done t st else task_cancel t st) ! g)
                  then 1 else 0)"
proof (cases d)
  case True
  have "g < length (aggregators (effect (TaskDone t) st))" using assms by (simp add: effect_def)
  from resolve_step [OF this, of Done t] True show ?thesis
    by (simp add: task_done_def effect_def)
next
  case False
  have "g < length (aggregators (effect (TaskCancel t) st))" using assms by (simp add: effect_def)
  from resolve_step [OF this, of Canceled t] False show ?thesis
    by (simp add: task_cancel_def effect_def)
qed

lemma pending_mono:
  assumes "length a' = length a" and "\<forall>i < length a. a ! i \<noteq> Pending \<longrightarrow> a' ! i \<noteq> Pending"
    and "Pending \<in> set a'"
  shows "Pending \<in> set a"
proof -
  from assms(3) obtain i where i: "i < length a'" "a' ! i = Pending"
    by (auto simp: in_set_conv_nth)
  with assms(1,2) have "i < length a" "a ! i = Pending" by auto
  then show ?thesis by (auto simp: in_set_conv_nth)
qed

lemma resolveAll_inv:
  assumes "g < length (aggregators st)"
  shows "g < length (aggregators (resolveAll ops st))
         \<and> length (aggregators (resolveAll ops st) ! g) = length (aggregators st ! g)
         \<and> (\<forall>i < length (aggregators st ! g).
               (g, i) \<in> fst ` set ops \<or> aggregators st ! g ! i \<noteq> Pending
               \<longrightarrow> aggregators (resolveAll ops st) ! g ! i \<noteq> Pending)
         \<and> count_list (log (resolveAll ops st)) (AggregatorFinished g)
             = count_list (log st) (AggregatorFinished g)
               + (if Pending \<in> set (aggregators st ! g)
                     \<and> Pending \<notin> set (aggregators (resolveAll ops st) ! g)
                  then 1 else 0)"
  using assms
proof (induction ops arbitrary: st)
  case Nil
  then show ?case by simp
next
  case (Cons op ops)
  obtain t d where op: "op = (t, d)" by (cases op)
  define st1 where "st1 = (if d then task_done t st else task_cancel t st)"
  define a0 where "a0 = aggregators st ! g"
  define a1 where "a1 = aggregators st1 ! g"
  define a2 where "a2 = aggregators (resolveAll ops st1) ! g"
  note os = op_step [OF Cons.prems, of d t, folded st1_def, folded a0_def a1_def]
  have s1: "g < length (aggregators st1)" using os by (rule conjunct1)
  have s2: "length a1 = length a0" using os by (elim conjE)
  have s3: "\<forall>i < length a0. t = (g, i) \<or> a0 ! i \<noteq> Pending \<longrightarrow> a1 ! i \<noteq> Pending"
    using os by (elim conjE)
  have s4: "count_list (log st1) (AggregatorFinished g)
       = count_list (log st) (AggregatorFinished g)
         + (if Pending \<in> set a0 \<and> Pending \<notin> set a1 then 1 else 0)"
    using os by (elim conjE)
  note ih = Cons.IH [OF s1, folded a1_def a2_def]
  have t1: "g < length (aggregators (resolveAll ops st1))" using ih by (rule conjunct1)
  have t2: "length a2 = length a1" using ih by (elim conjE)
  have t3: "\<forall>i < length a1. (g, i) \<in> fst ` set ops \<or> a1 ! i \<noteq> Pending \<longrightarrow> a2 ! i \<noteq> Pending"
    using ih by (elim conjE)
  have t4: "count_list (log (resolveAll ops st1)) (AggregatorFinished g)
       = count_list (log st1) (AggregatorFinished g)
         + (if Pending \<in> set a1 \<and> Pending \<notin> set a2 then 1 else 0)"
    using ih by (elim conjE)
  have m1: "Pending \<in> set a1 \<Longrightarrow> Pending \<in> set a0"
    using pending_mono [of a1 a0] s2 s3 by blast
  have m2: "Pending \<in> set a2 \<Longrightarrow> Pending \<in> set a1"
    using pending_mono [of a2 a1] t2 t3 by blast
  have r: "resolveAll (op # ops) st = resolveAll ops st1"
    unfolding op st1_def by simp
  have c: "count_list (log (resolveAll ops st1)) (AggregatorFinished g)
       = count_list (log st) (AggregatorFinished g)
         + (if Pending \<in> set a0 \<and> Pending \<notin> set a2 then 1 else 0)"
    using s4 t4 m1 m2 by (cases "Pending \<in> set a0"; cases "Pending \<in> set a1"; cases "Pending \<in> set a2") simp_all
  have n: "\<forall>i < length a0. (g, i) \<in> fst ` set (op # ops) \<or> a0 ! i \<noteq> Pending \<longrightarrow> a2 ! i \<noteq> Pending"
  proof (intro allI impI)
    fix i assume i: "i < length a0" and h: "(g, i) \<in> fst ` set (op # ops) \<or> a0 ! i \<noteq> Pending"
    from h have "t = (g, i) \<or> (g, i) \<in> fst ` set ops \<or> a0 ! i \<noteq> Pending"
      unfolding op by auto
    then show "a2 ! i \<noteq> Pending"
      using s3 t3 i s2 by metis
  qed
  have l: "length a2 = length a0" using s2 t2 by simp
  show ?case
    unfolding r using t1 l c n unfolding a0_def a2_def by (intro conjI)
qed

lemma loadAll_batch:
  assumes "fresh_aggregator st" and "list_all (dispatched e st) calls" and "calls \<noteq> []"
  shows "\<exists>rs st'.
           loadAll e calls st = Inr (rs, st')
         \<and> aggregators st' = aggregators st @ [replicate (length calls) Pending]
         \<and> aggregator st' = Some (length (aggregators st))
         \<and> log st' = log st @ [AggregatorCreated (length (aggregators st))]
         \<and> map taskOf rs = map (\<lambda>i. Some (length (aggregators st), i)) [0..<length calls]
         \<and> (\<forall>ops. list_all (\<lambda>i. (length (aggregators st), i) \<in> fst ` set ops) [0..<length calls]
               \<longrightarrow> count_list (log (resolveAll ops st')) (AggregatorFinished (length (aggregators st)))
                     = count_list (log st) (AggregatorFinished (length (aggregators st))) + 1)"
proof -
  define g where "g = length (aggregators st)"
  from assms(3) obtain c calls' where cs: "calls = c # calls'" by (cases calls) auto
  obtain that u opts where c: "c = (that, u, opts)" by (cases c)
  from assms(2) cs c have miss: "dispatched e st (that, u, opts)" by simp
  from loadContent_new [OF miss assms(1)]
  obtain request st1 where 1: "loadContent e that u opts st = Inr (Some request, st1)"
    "r_task request = Some (g, 0)"
    "aggregators st1 = aggregators st @ [ [Pending] ]"
    "aggregator st1 = Some g" "log st1 = log st @ [AggregatorCreated g]" "cache st1 = cache st"
    unfolding g_def by blast
  have "dispatched e st1 = dispatched e st"
    using dispatched_cache [OF 1(6)] by (rule ext)
  then have rest: "list_all (dispatched e st1) calls'" using assms(2) cs by simp
  have g1: "g < length (aggregators st1)" using 1(3) g_def by simp
  have a1: "aggregators st1 ! g = replicate 1 Pending" using 1(3) g_def by simp
  from loadAll_reuse [OF rest 1(4) g1 a1]
  obtain rs st' where 2: "loadAll e calls' st1 = Inr (rs, st')"
    "map taskOf rs = map (\<lambda>i. Some (g, i)) [1..<1 + length calls']"
    "aggregators st' = (aggregators st1)[g := replicate (1 + length calls') Pending]"
    "aggregator st' = Some g" "log st' = log st1" "cache st' = cache st1"
    by auto
  have l: "loadAll e calls st = Inr (Some request # rs, st')"
    using cs c 1(1) 2(1) by simp
  have ag: "aggregators st' = aggregators st @ [replicate (length calls) Pending]"
    using 2(3) 1(3) cs g_def by simp
  have "[0..<Suc (length calls')] = 0 # [Suc 0..<Suc (length calls')]"
    by (rule upt_conv_Cons) simp
  then have ts: "map taskOf (Some request # rs) = map (\<lambda>i. Some (g, i)) [0..<length calls]"
    using 1(2) 2(2) cs by (simp add: taskOf_Some del: upt_Suc)
  have lg: "log st' = log st @ [AggregatorCreated g]" using 2(5) 1(5) by simp
  have fin: "count_list (log (resolveAll ops st')) (AggregatorFinished g)
               = count_list (log st) (AggregatorFinished g) + 1"
    if all: "list_all (\<lambda>i. (g, i) \<in> fst ` set ops) [0..<length calls]" for ops
  proof -
    have gl: "g < length (aggregators st')" using ag g_def by simp
    have a: "aggregators st' ! g = replicate (length calls) Pending" using ag g_def by simp
    define a2 where "a2 = aggregators (resolveAll ops st') ! g"
    note inv0 = resolveAll_inv [OF gl, of ops, folded a2_def, unfolded a]
    have inv1: "length a2 = length calls" using inv0 by simp
    have inv2: "\<forall>i < length calls. (g, i) \<in> fst ` set ops \<longrightarrow> a2 ! i \<noteq> Pending"
      using inv0 by simp
    have inv3: "count_list (log (resolveAll ops st')) (AggregatorFinished g)
         = count_list (log st') (AggregatorFinished g)
           + (if Pending \<in> set (replicate (length calls) Pending) \<and> Pending \<notin> set a2 then 1 else 0)"
      using inv0 by (elim conjE)
    have "\<forall>i < length calls. a2 ! i \<noteq> Pending"
      using inv2 all by (simp add: list_all_iff)
    then have "Pending \<notin> set a2" using inv1 by (metis in_set_conv_nth)
    moreover have "Pending \<in> set (replicate (length calls) Pending)" using assms(3) by simp
    ultimately show ?thesis using inv3 lg by simp
  qed
  show ?thesis
    using l ag 2(4) lg ts fin unfolding g_def by blast
qed

text \<open>
  Claim C9, as amended. Take a batch of \<open>loadContent\<close> calls, by any widgets and with
  any options that do not set \<open>noNotifications\<close>, each of which misses the response
  cache and is sent (its lookup in the cache gives nothing and \<open>encodeURIComponent\<close>
  accepts its URL), issued while no aggregator exists or the existing one is finished.
  The first call creates exactly one new aggregator and every call of the batch adds
  its task to that same instance; once each of these tasks has been resolved or
  canceled, in any order and however often, the aggregator has reached its finished
  state exactly once. More generally, any such call issued while the current aggregator
  has an outstanding task reuses it and creates none.
\<close>

theorem one_aggregator_per_batch:
  assumes "fresh_aggregator st" and "list_all (dispatched e st) calls" and "calls \<noteq> []"
  shows "(\<exists>rs st'.
           loadAll e calls st = Inr (rs, st')
         \<and> aggregators st' = aggregators st @ [replicate (length calls) Pending]
         \<and> aggregator st' = Some (length (aggregators st))
         \<and> log st' = log st @ [AggregatorCreated (length (aggregators st))]
         \<and> map taskOf rs = map (\<lambda>i. Some (length (aggregators st), i)) [0..<length calls]
         \<and> (\<forall>ops. list_all (\<lambda>i. (length (aggregators st), i) \<in> fst ` set ops) [0..<length calls]
               \<longrightarrow> count_list (log (resolveAll ops st')) (AggregatorFinished (length (aggregators st)))
                     = count_list (log st) (AggregatorFinished (length (aggregators st))) + 1))
       \<and> (\<forall>s g that u opts.
             dispatched e s (that, u, opts) \<and> aggregator s = Some g \<and> g < length (aggregators s)
               \<and> \<not> aggregator_isFinished (aggregators s ! g)
             \<longrightarrow> (\<exists>request s'.
                    loadContent e that u opts s = Inr (Some request, s')
                  \<and> r_task request = Some (g, length (aggregators s ! g))
                  \<and> aggregators s' = (aggregators s)[g := aggregators s ! g @ [Pending]]
                  \<and> aggregator s' = Some g
                  \<and> log s' = log s))"
proof (rule conjI)
  show "\<exists>rs st'.
           loadAll e calls st = Inr (rs, st')
         \<and> aggregators st' = aggregators st @ [replicate (length calls) Pending]
         \<and> aggregator st' = Some (length (aggregators st))
         \<and> log st' = log st @ [AggregatorCreated (length (aggregators st))]
         \<and> map taskOf rs = map (\<lambda>i. Some (length (aggregators st), i)) [0..<length calls]
         \<and> (\<forall>ops. list_all (\<lambda>i. (length (aggregators st), i) \<in> fst ` set ops) [0..<length calls]
               \<longrightarrow> count_list (log (resolveAll ops st')) (AggregatorFinished (length (aggregators st)))
                     = count_list (log st) (AggregatorFinished (length (aggregators st))) + 1)"
    using assms by (rule loadAll_batch)
next
  show "\<forall>s g that u opts.
             dispatched e s (that, u, opts) \<and> aggregator s = Some g \<and> g < length (aggregators s)
               \<and> \<not> aggregator_isFinished (aggregators s ! g)
             \<longrightarrow> (\<exists>request s'.
                    loadContent e that u opts s = Inr (Some request, s')
                  \<and> r_task request = Some (g, length (aggregators s ! g))
                  \<and> aggregators s' = (aggregators s)[g := aggregators s ! g @ [Pending]]
                  \<and> aggregator s' = Some g
                  \<and> log s' = log s)"
  proof (intro allI impI)
    fix s :: state and g that :: nat and u :: string and opts :: opts
    assume h: "dispatched e s (that, u, opts) \<and> aggregator s = Some g \<and> g < length (aggregators s)
               \<and> \<not> aggregator_isFinished (aggregators s ! g)"
    then have "dispatched e s (that, u, opts)" "aggregator s = Some g" "g < length (aggregators s)"
      "\<not> aggregator_isFinished (aggregators s ! g)" by simp_all
    from loadContent_reuse [OF this]
    show "\<exists>request s'.
                    loadContent e that u opts s = Inr (Some request, s')
                  \<and> r_task request = Some (g, length (aggregators s ! g))
                  \<and> aggregators s' = (aggregators s)[g := aggregators s ! g @ [Pending]]
                  \<and> aggregator s' = Some g
                  \<and> log s' = log s"
      by blast
  qed
qed

theorem one_aggregator_per_batch_witness:
  "\<exists>rs st'.
      loadAll browser
        [(0, ''a'', notifying),
         (1, ''b'', \<lparr>callback = False, errorCallback = True, noNotifications = False\<rparr>),
         (0, ''c'', notifying)] (init {0, 1}) = Inr (rs, st')
    \<and> aggregators st' = [ [Pending, Pending, Pending] ]
    \<and> aggregator st' = Some 0
    \<and> log st' = [AggregatorCreated 0]
    \<and> map taskOf rs = [Some (0, 0), Some (0, 1), Some (0, 2)]
    \<and> count_list (log (resolveAll [((0, 1), True), ((0, 0), False), ((0, 2), True), ((0, 1), True)] st'))
         (AggregatorFinished 0) = 1"
proof -
  let ?calls = "[(0, ''a'', notifying),
         (1, ''b'', \<lparr>callback = False, errorCallback = True, noNotifications = False\<rparr>),
         (0, ''c'', notifying)]"
  have f: "fresh_aggregator (init {0, 1})" by (simp add: fresh_aggregator_def init_def)
  have m: "list_all (dispatched browser (init {0, 1})) ?calls"
    by (simp add: dispatched_def getCachedResponse_def init_def browser_def objectPrototype_def
          notifying_def)
  have n: "?calls \<noteq> []" by simp
  have l: "[0..<3] = [0, 1, 2]" by (simp add: upt_rec)
  have i0: "aggregators (init ws) = []" "log (init ws) = []" for ws
    by (simp_all add: init_def)
  show ?thesis
    using one_aggregator_per_batch [OF f m n, THEN conjunct1]
    apply (elim exE conjE)
    subgoal for rs st'
      apply (rule exI [of _ rs], rule exI [of _ st'])
      apply (drule spec [of _ "[((0, 1), True), ((0, 0), False), ((0, 2), True), ((0, 1), True)]"])
      apply (simp add: i0 l numeral_3_eq_3 del: loadAll.simps)
      done
    done
qed

text \<open>
  The claim as stated fails for calls that hit the response cache: after one URL has
  been loaded and cached (without notifications, so no aggregator exists), three calls
  for that URL without \<open>noNotifications\<close> return on line 453, before any task is
  created, and no aggregator is created at all.
\<close>

theorem cache_hit_creates_no_aggregator:
  "aggregator
     (run browser
        [Load 0 ''u'' \<lparr>callback = False, errorCallback = False, noNotifications = True\<rparr>,
         ProviderScript 0 \<lparr>type = ''rich'', url = None, title = None, html = Some ''x''\<rparr>,
         TransportTimeout] (init {0})) = None
   \<and> \<not> isl (loadAll browser [(0, ''u'', notifying), (0, ''u'', notifying), (0, ''u'', notifying)]
         (run browser
            [Load 0 ''u'' \<lparr>callback = False, errorCallback = False, noNotifications = True\<rparr>,
             ProviderScript 0 \<lparr>type = ''rich'', url = None, title = None, html = Some ''x''\<rparr>,
             TransportTimeout] (init {0})))
   \<and> aggregators
       (snd (projr (loadAll browser [(0, ''u'', notifying), (0, ''u'', notifying), (0, ''u'', notifying)]
         (run browser
            [Load 0 ''u'' \<lparr>callback = False, errorCallback = False, noNotifications = True\<rparr>,
             ProviderScript 0 \<lparr>type = ''rich'', url = None, title = None, html = Some ''x''\<rparr>,
             TransportTimeout] (init {0}))))) = []
   \<and> log
       (snd (projr (loadAll browser [(0, ''u'', notifying), (0, ''u'', notifying), (0, ''u'', notifying)]
         (run browser
            [Load 0 ''u'' \<lparr>callback = False, errorCallback = False, noNotifications = True\<rparr>,
             ProviderScript 0 \<lparr>type = ''rich'', url = None, title = None, html = Some ''x''\<rparr>,
             TransportTimeout] (init {0})))))
     = [SetContent 0 ''u'' ''x'', AddContent 0 (Some ''x'')]"
  by (simp add: coordinator_defs)

end
